theory Spec2Isabelle
  imports Complex_Main "HOL-Library.Word" "HOL-Library.Multiset" "HOL-Library.Product_Lexorder"
    "HOL-Library.Log_Nat"
begin

section \<open>Instacart recommender notebook (\<open>src/imf.ipynb\<close>)\<close>

text \<open>
  The notebook builds a \<open>product x user\<close> utility matrix from purchase records, hands it
  (scaled by \<open>alpha\<close>) to the ALS model of the \<open>implicit\<close> library, and evaluates the
  model against a popularity baseline by recall. The definitions below follow the notebook's
  cells in their order. Data frames are lists of rows, Python integers are \<open>int\<close>, the
  \<open>int64\<close> values held by NumPy arrays are \<open>64 word\<close> (read by \<open>sint\<close>), a Python
  \<open>float\<close> is the rational number it denotes, and an exception is the \<open>Inl\<close> branch
  of a sum.
\<close>

datatype error = KeyError | ValueError | IndexError

subsection \<open>Data frames\<close>

text \<open>
  \<open>df_orders\<close> (\<open>orders.csv\<close>) and \<open>df_order_products_prior\<close>
  (\<open>order_products__prior.csv\<close>), reduced to the columns the notebook reads, and
  \<open>df_user_product_prior\<close>, the frame with the columns \<open>user_id\<close>, \<open>product_id\<close> and
  \<open>quantity\<close> from which the utility matrix is built. The \<open>quantity\<close> column has the
  dtype \<open>int64\<close>; ids are only compared, never computed with, and are \<open>int\<close>.
\<close>

record order_row =
  o_order_id :: int
  o_user_id :: int
  o_eval_set :: string

record order_product_row =
  op_order_id :: int
  op_product_id :: int

record interaction =
  user_id :: int
  product_id :: int
  quantity :: "64 word"

text \<open>A row of \<open>df_user_products_test\<close>: \<open>row["user_id"]\<close> and \<open>row["products"]\<close>, the
  latter the text of a Python list such as \<open>[196, 25133]\<close>.\<close>

record test_row =
  row_user_id :: int
  row_products :: string

subsection \<open>Utility matrix: \<open>get_user_product_prior_df\<close>\<close>

text \<open>
  \<^verbatim>\<open>
  df_order_user_prior = df_orders.loc[df_orders.eval_set == "prior"]
  df_order_user_prior = df_order_user_prior[["order_id", "user_id"]]
  df_merged = pd.merge(df_order_user_prior,
                       df_order_products_prior[["order_id", "product_id"]], on="order_id")
  df_user_product_prior = df_merged[["user_id", "product_id"]]
  df_user_product_prior = df_user_product_prior.groupby(["user_id", "product_id"]).size()
                              .reset_index().rename(columns={0:"quantity"})
  \<close>
  \<open>pd.merge\<close> is the inner join on \<open>order_id\<close>; \<open>groupby(...).size()\<close> has one row for
  each distinct key, in ascending order of the key, holding the number of rows of the group.
\<close>

definition merge_on_order_id ::
  "order_row list \<Rightarrow> order_product_row list \<Rightarrow> (int \<times> int) list" where
  "merge_on_order_id left right =
     concat (map (\<lambda>l. map (\<lambda>r. (o_user_id l, op_product_id r))
                          (filter (\<lambda>r. op_order_id r = o_order_id l) right)) left)"

definition groupby_size :: "(int \<times> int) list \<Rightarrow> interaction list" where
  "groupby_size ps =
     map (\<lambda>(u, p). \<lparr>user_id = u, product_id = p, quantity = of_nat (count_list ps (u, p))\<rparr>)
       (sort (remdups ps))"

definition get_user_product_prior_df ::
  "order_row list \<Rightarrow> order_product_row list \<Rightarrow> interaction list" where
  "get_user_product_prior_df df_orders df_order_products_prior =
     (let df_order_user_prior = filter (\<lambda>r. o_eval_set r = ''prior'') df_orders;
          df_merged = merge_on_order_id df_order_user_prior df_order_products_prior
      in groupby_size df_merged)"

subsection \<open>Categorical columns\<close>

text \<open>
  \<^verbatim>\<open>
  df_user_product_prior["user_id"] = df_user_product_prior["user_id"].astype("category")
  df_user_product_prior["product_id"] = df_user_product_prior["product_id"].astype("category")
  \<close>
  The categories of a column of integers are its distinct values in ascending order
  (\<open>.cat.categories\<close>); the code of a value is its position among them (\<open>.cat.codes\<close>).
\<close>

definition categories :: "int list \<Rightarrow> int list" where
  "categories xs = sort (remdups xs)"

definition cat_code :: "int list \<Rightarrow> int \<Rightarrow> nat" where
  "cat_code cats x = length (takeWhile (\<lambda>c. c \<noteq> x) cats)"

definition codes :: "int list \<Rightarrow> nat list" where
  "codes xs = map (cat_code (categories xs)) xs"

subsection \<open>Sparse matrices of \<open>scipy.sparse\<close>\<close>

text \<open>
  A sparse matrix is its shape and its stored entries. \<open>coo_matrix((data, (i, j)))\<close>
  keeps the triples as given, duplicates included, and infers the shape from the largest
  indices; it raises \<open>ValueError\<close> when the arrays differ in length or are empty.
  \<open>tocsr\<close> sums the values of duplicate positions and orders the entries by row and
  column. Indexing \<open>m[i, j]\<close> of a CSR matrix is the stored value, 0 where nothing is
  stored, and \<open>IndexError\<close> outside the shape; \<open>m[i].indices\<close> are the column indices
  stored in row \<open>i\<close>. Indices are natural numbers here (the notebook never indexes with a
  negative number).
\<close>

record 'a sparse =
  shape :: "nat \<times> nat"
  entries :: "((nat \<times> nat) \<times> 'a) list"

definition coo_matrix :: "'a list \<Rightarrow> nat list \<Rightarrow> nat list \<Rightarrow> error + 'a sparse" where
  "coo_matrix dat row col =
     (if length row \<noteq> length dat \<or> length col \<noteq> length dat then Inl ValueError
      else if dat = [] then Inl ValueError
      else Inr \<lparr>shape = (Suc (Max (set row)), Suc (Max (set col))),
                entries = zip (zip row col) dat\<rparr>)"

definition tocsr :: "'a::monoid_add sparse \<Rightarrow> 'a sparse" where
  "tocsr m =
     \<lparr>shape = shape m,
      entries = map (\<lambda>k. (k, sum_list (map snd (filter (\<lambda>e. fst e = k) (entries m)))))
                  (sort (remdups (map fst (entries m))))\<rparr>"

definition transpose_T :: "'a sparse \<Rightarrow> 'a sparse" where
  "transpose_T m =
     \<lparr>shape = (snd (shape m), fst (shape m)),
      entries = map (\<lambda>((i, j), v). ((j, i), v)) (entries m)\<rparr>"

definition getitem :: "'a::zero sparse \<Rightarrow> nat \<times> nat \<Rightarrow> error + 'a" where
  "getitem m ij =
     (if fst ij < fst (shape m) \<and> snd ij < snd (shape m)
      then Inr (case map_of (entries m) ij of None \<Rightarrow> 0 | Some v \<Rightarrow> v)
      else Inl IndexError)"

definition row_indices :: "'a sparse \<Rightarrow> nat \<Rightarrow> error + nat list" where
  "row_indices m i =
     (if i < fst (shape m)
      then Inr (map (\<lambda>e. snd (fst e)) (filter (\<lambda>e. fst (fst e) = i) (entries m)))
      else Inl IndexError)"

subsection \<open>Utility matrix: \<open>build_product_user_matrix\<close>\<close>

text \<open>
  \<^verbatim>\<open>
  product_user_matrix = sparse.coo_matrix((df_user_product_prior["quantity"],
                                          (df_user_product_prior["product_id"].cat.codes.copy(),
                                           df_user_product_prior["user_id"].cat.codes.copy())))
  sparse.save_npz(matrix_path, product_user_matrix)
  ...
  product_user_matrix = sparse.load_npz(matrix_path).tocsr()
  \<close>
  Saving and loading return the matrix unchanged; the function's result is the matrix it
  writes.
\<close>

definition build_product_user_matrix :: "interaction list \<Rightarrow> error + 64 word sparse" where
  "build_product_user_matrix df_user_product_prior =
     coo_matrix (map quantity df_user_product_prior)
       (codes (map product_id df_user_product_prior))
       (codes (map user_id df_user_product_prior))"

subsection \<open>Implicit matrix factorization: \<open>confidence_matrix\<close> and \<open>build_imf\<close>\<close>

text \<open>
  \<^verbatim>\<open>
  def confidence_matrix(prod_user_matrix, alpha):
      return (prod_user_matrix * alpha).astype("double")
  \<close>
  Multiplying a sparse matrix by a scalar multiplies its stored values; \<open>alpha\<close> is the
  Python integer 15 of \<open>model_params\<close>, so the product is computed in \<open>int64\<close> and wraps
  around. \<open>astype("double")\<close> converts each \<open>int64\<close> to the nearest binary64 number, ties
  to even: a number of at most 53 bits is kept, a longer one is rounded at its 53rd bit.
\<close>

definition round_half_even :: "rat \<Rightarrow> int" where
  "round_half_even q =
     (let f = \<lfloor>q\<rfloor>; d = q - of_int f
      in if d < 1 / 2 then f else if 1 / 2 < d then f + 1 else if even f then f else f + 1)"

definition astype_double :: "64 word \<Rightarrow> rat" where
  "astype_double w =
     (let n = sint w; e = nat (bitlen \<bar>n\<bar> - 53)
      in of_int (round_half_even (of_int n / 2 ^ e) * 2 ^ e))"

definition confidence_matrix :: "64 word sparse \<Rightarrow> 64 word \<Rightarrow> rat sparse" where
  "confidence_matrix prod_user_matrix alpha =
     \<lparr>shape = shape prod_user_matrix,
      entries = map (\<lambda>(k, v). (k, astype_double (v * alpha))) (entries prod_user_matrix)\<rparr>"

text \<open>
  \<^verbatim>\<open>
  def build_imf(prod_user_matrix, **kwargs):
      model = AlternatingLeastSquares()
      model.approximate_similar_items = False
      model.fit(confidence_matrix(prod_user_matrix, kwargs["alpha"]))
      with open(kwargs["path"], "wb+") as f:
          pickle.dump(model, f, pickle.HIGHEST_PROTOCOL)
  \<close>
  \<open>AlternatingLeastSquares\<close> belongs to the \<open>implicit\<close> library. The notebook uses the
  fitted model through \<open>imf_model.recommend(userid, user_items, N)\<close> only, so a model is
  that method: it returns pairs of an item index and a score. \<open>fit\<close> stands for one run
  of the library's training.
\<close>

type_synonym model = "nat \<Rightarrow> 64 word sparse \<Rightarrow> nat \<Rightarrow> error + (nat \<times> rat) list"

definition build_imf :: "(rat sparse \<Rightarrow> model) \<Rightarrow> 64 word sparse \<Rightarrow> 64 word \<Rightarrow> model" where
  "build_imf fit prod_user_matrix alpha = fit (confidence_matrix prod_user_matrix alpha)"

subsection \<open>Example recommendation: \<open>u_dict\<close> and \<open>p_dict\<close>\<close>

text \<open>
  \<^verbatim>\<open>
  # Maps user_id: user index
  u_dict = {uid:i for i, uid in enumerate(df_user_product_prior["user_id"].cat.categories)}
  # Maps product_index: product id
  p_dict = dict(enumerate(df_user_product_prior["product_id"].cat.categories))
  \<close>
  A dictionary built from a sequence of pairs keeps the last value given for a key.
\<close>

definition u_dict_of :: "int list \<Rightarrow> (int \<rightharpoonup> nat)" where
  "u_dict_of cats = fold (\<lambda>(i, uid) d. d(uid \<mapsto> i)) (enumerate 0 cats) Map.empty"

definition p_dict_of :: "int list \<Rightarrow> (nat \<rightharpoonup> int)" where
  "p_dict_of cats = fold (\<lambda>(i, pid) d. d(i \<mapsto> pid)) (enumerate 0 cats) Map.empty"

definition lookup :: "('k \<rightharpoonup> 'v) \<Rightarrow> 'k \<Rightarrow> error + 'v" where
  "lookup d k = (case d k of None \<Rightarrow> Inl KeyError | Some v \<Rightarrow> Inr v)"

subsection \<open>Evaluation using recall: \<open>get_k_popular\<close>\<close>

text \<open>
  \<^verbatim>\<open>
  def get_k_popular(k, df_merged_order_products_prior):
      popular_products = list(df_merged_order_products_prior["product_id"].value_counts().head(k).index)
      return popular_products
  \<close>
  \<open>value_counts\<close> pairs each distinct value of the column with its number of occurrences,
  in descending order of that number. pandas does not fix the order of values that occur
  equally often (it comes from a hash table and an unstable sort): \<open>ties\<close> is that
  arrangement of the distinct values, and the sort by count that follows it is stable.
\<close>

definition value_counts :: "(int list \<Rightarrow> int list) \<Rightarrow> int list \<Rightarrow> (int \<times> nat) list" where
  "value_counts ties xs =
     sort_key (\<lambda>(p, c). - int c) (map (\<lambda>p. (p, count_list xs p)) (ties (remdups xs)))"

definition get_k_popular :: "(int list \<Rightarrow> int list) \<Rightarrow> nat \<Rightarrow> int list \<Rightarrow> int list" where
  "get_k_popular ties k product_id_column =
     (let popular_products = map fst (take k (value_counts ties product_id_column))
      in popular_products)"

definition N_REC :: nat where
  "N_REC = 10"

subsection \<open>Evaluation using recall: \<open>recall_score\<close>\<close>

text \<open>
  \<^verbatim>\<open>
  def recall_score(actual, pred):
      if len(actual) == 0:
          return 0
      actual, pred = set(actual), set(pred)
      return len(actual.intersection(pred)) / len(actual)
  \<close>
  The arguments are any two Python collections (the notebook passes a set and a list); a
  collection is the list of its elements in iteration order. True division of two Python
  integers is the quotient as a rational number: the \<open>float\<close> the interpreter returns is
  that quotient rounded to nearest, and rounding is monotone.
\<close>

definition recall_score :: "'a list \<Rightarrow> 'a list \<Rightarrow> rat" where
  "recall_score actual pred =
     (if length actual = 0 then 0
      else (let actual' = set actual; pred' = set pred
            in of_nat (card (actual' \<inter> pred')) / of_nat (card actual')))"

subsection \<open>Python strings: \<open>strip\<close>, \<open>split\<close> and \<open>int\<close>\<close>

text \<open>
  A character is a code point below 256. \<open>str.strip()\<close> removes the white space at both
  ends, \<open>str.split(sep)\<close> cuts at every separator (the empty string gives one empty
  piece), and \<open>int(s)\<close> reads an optional sign and decimal digits, single underscores
  allowed between digits, and raises \<open>ValueError\<close> on anything else.
\<close>

definition isspace :: "char \<Rightarrow> bool" where
  "isspace c = (c \<in> set [CHR 0x09, CHR 0x0A, CHR 0x0B, CHR 0x0C, CHR 0x0D, CHR 0x1C, CHR 0x1D,
                         CHR 0x1E, CHR 0x1F, CHR 0x20, CHR 0x85, CHR 0xA0])"

definition strip :: "string \<Rightarrow> string" where
  "strip s = rev (dropWhile isspace (rev (dropWhile isspace s)))"

fun split :: "char \<Rightarrow> string \<Rightarrow> string list" where
  "split sep [] = [[]]"
| "split sep (c # cs) =
     (if c = sep then [] # split sep cs
      else (case split sep cs of [] \<Rightarrow> [[c]] | w # ws \<Rightarrow> (c # w) # ws))"

definition isdigit :: "char \<Rightarrow> bool" where
  "isdigit c = (c \<in> set ''0123456789'')"

definition digit_val :: "char \<Rightarrow> int" where
  "digit_val c = of_char c - 48"

fun int_digits :: "int \<Rightarrow> string \<Rightarrow> int option" where
  "int_digits acc [] = Some acc"
| "int_digits acc [c] = (if isdigit c then Some (10 * acc + digit_val c) else None)"
| "int_digits acc (c # d # ds) =
     (if isdigit c then int_digits (10 * acc + digit_val c) (d # ds)
      else if c = CHR ''_'' \<and> isdigit d then int_digits (10 * acc + digit_val d) ds
      else None)"

definition py_int :: "string \<Rightarrow> error + int" where
  "py_int s =
     (let t = strip s;
          (neg, body) = (case t of [] \<Rightarrow> (False, [])
                          | c # cs \<Rightarrow> if c = CHR ''-'' then (True, cs)
                                      else if c = CHR ''+'' then (False, cs) else (False, t))
      in case body of
           [] \<Rightarrow> Inl ValueError
         | c # cs \<Rightarrow>
             if isdigit c
             then (case int_digits (digit_val c) cs of
                     None \<Rightarrow> Inl ValueError
                   | Some n \<Rightarrow> Inr (if neg then - n else n))
             else Inl ValueError)"

text \<open>A comprehension over calls that may raise stops at the first exception.\<close>

fun sequence :: "(error + 'a) list \<Rightarrow> error + 'a list" where
  "sequence [] = Inr []"
| "sequence (x # xs) =
     (case x of Inl e \<Rightarrow> Inl e
      | Inr v \<Rightarrow> (case sequence xs of Inl e \<Rightarrow> Inl e | Inr vs \<Rightarrow> Inr (v # vs)))"

subsection \<open>Evaluation using recall: the notebook's globals and the two predictors\<close>

text \<open>
  The functions of the evaluation cell read the notebook's global variables. They are
  gathered in a record, filled in the order of the cells: the utility matrix
  \<open>product_user_matrix\<close> (cell 6), the model (cell 9, with \<open>alpha = 15\<close>), the two
  dictionaries (cell 10), \<open>user_product_matrix = product_user_matrix.T.tocsr()\<close> and
  \<open>popular_products = get_k_popular(N_REC, df_merged_order_products_prior)\<close> (cell 14).
\<close>

record notebook =
  product_user_matrix :: "64 word sparse"
  imf_model :: model
  u_dict :: "int \<rightharpoonup> nat"
  p_dict :: "nat \<rightharpoonup> int"
  user_product_matrix :: "64 word sparse"
  popular_products :: "int list"

definition run_cells ::
  "(rat sparse \<Rightarrow> model) \<Rightarrow> (int list \<Rightarrow> int list) \<Rightarrow> interaction list \<Rightarrow> int list
     \<Rightarrow> error + notebook" where
  "run_cells fit ties df_user_product_prior prior_product_ids =
     (case build_product_user_matrix df_user_product_prior of
        Inl e \<Rightarrow> Inl e
      | Inr coo \<Rightarrow>
          (let m = tocsr coo
           in Inr \<lparr>product_user_matrix = m,
                   imf_model = build_imf fit m 15,
                   u_dict = u_dict_of (categories (map user_id df_user_product_prior)),
                   p_dict = p_dict_of (categories (map product_id df_user_product_prior)),
                   user_product_matrix = tocsr (transpose_T m),
                   popular_products = get_k_popular ties N_REC prior_product_ids\<rparr>))"

text \<open>
  \<^verbatim>\<open>
  def new_products(row):
      actual = row["products"][1:-1]  # Products purchased currently
      actual = set([int(p.strip()) for p in actual.strip().split(",")])
      liked = set([p_dict[i] for i in user_product_matrix[u_dict[row["user_id"]]].indices])
      return actual - liked  # Return only new products purchased
  \<close>
  The first two lines are \<open>parse_products\<close>. A Python set is a list without repetitions;
  the order of its elements plays no role in what follows.
\<close>

definition parse_products :: "string \<Rightarrow> error + int list" where
  "parse_products products =
     (let actual = butlast (tl products)
      in sequence (map (\<lambda>p. py_int (strip p)) (split CHR '','' (strip actual))))"

definition new_products :: "notebook \<Rightarrow> test_row \<Rightarrow> error + int list" where
  "new_products nb row =
     (case parse_products (row_products row) of
        Inl e \<Rightarrow> Inl e
      | Inr actual \<Rightarrow>
     (case lookup (u_dict nb) (row_user_id row) of
        Inl e \<Rightarrow> Inl e
      | Inr u \<Rightarrow>
     (case row_indices (user_product_matrix nb) u of
        Inl e \<Rightarrow> Inl e
      | Inr indices \<Rightarrow>
     (case sequence (map (lookup (p_dict nb)) indices) of
        Inl e \<Rightarrow> Inl e
      | Inr liked \<Rightarrow> Inr (filter (\<lambda>p. p \<notin> set liked) (remdups actual))))))"

text \<open>
  \<^verbatim>\<open>
  def popular_recommend(row):
      actual = new_products(row)
      return recall_score(actual, popular_products)

  def imf_recommend(row):
      actual = new_products(row)
      recommended = imf_model.recommend(u_dict[row["user_id"]], user_product_matrix, N=N_REC)
      recommended = [p_dict[r[0]] for r in recommended]
      return recall_score(actual, recommended)
  \<close>
\<close>

definition popular_recommend :: "notebook \<Rightarrow> test_row \<Rightarrow> error + rat" where
  "popular_recommend nb row =
     (case new_products nb row of
        Inl e \<Rightarrow> Inl e
      | Inr actual \<Rightarrow> Inr (recall_score actual (popular_products nb)))"

definition imf_recommend :: "notebook \<Rightarrow> test_row \<Rightarrow> error + rat" where
  "imf_recommend nb row =
     (case new_products nb row of
        Inl e \<Rightarrow> Inl e
      | Inr actual \<Rightarrow>
     (case lookup (u_dict nb) (row_user_id row) of
        Inl e \<Rightarrow> Inl e
      | Inr u \<Rightarrow>
     (case imf_model nb u (user_product_matrix nb) N_REC of
        Inl e \<Rightarrow> Inl e
      | Inr recommended \<Rightarrow>
     (case sequence (map (\<lambda>r. lookup (p_dict nb) (fst r)) recommended) of
        Inl e \<Rightarrow> Inl e
      | Inr recommended \<Rightarrow> Inr (recall_score actual recommended)))))"

subsection \<open>Recommendation Generator\<close>

text \<open>
  The notebook's recommendations come from \<open>imf_model.recommend\<close>, a method of the
  \<open>implicit\<close> library whose code is not in the repository. The two definitions below
  follow section 4.3 of the specification instead: the score of item \<open>i\<close> is the dot
  product of \<open>x_u\<close> and \<open>y_i\<close>; the items in \<open>exclude\<close> are removed before ranking; the
  top \<open>N\<close> are selected by descending score, ties broken by ascending item index. Scores
  are exact rationals. A user index without a row in \<open>X\<close> is the specification's
  \<open>ShapeError\<close>.
\<close>

datatype spec_error = ShapeError

text \<open>Modelled from the spec: the dot product of two factor vectors (section 4.3, "Score
  for candidate item i: dot product of x_u and y_i"); the factor matrices come from the
  library's training, which is not in the repository.\<close>

definition dot :: "rat list \<Rightarrow> rat list \<Rightarrow> rat" where
  "dot x y = sum_list (map2 (*) x y)"

text \<open>Modelled from the spec: \<open>recommend(user_index, X, Y, N, exclude)\<close> of section 4.3,
  which stands for the \<open>recommend\<close> method of the \<open>implicit\<close> library, missing from the
  repository.\<close>

definition recommend ::
  "nat \<Rightarrow> rat list list \<Rightarrow> rat list list \<Rightarrow> nat \<Rightarrow> nat set option
     \<Rightarrow> spec_error + (nat \<times> rat) list" where
  "recommend user_index X Y N exclude =
     (if length X \<le> user_index then Inl ShapeError
      else (let x_u = X ! user_index;
                candidates = filter (\<lambda>i. case exclude of None \<Rightarrow> True | Some ex \<Rightarrow> i \<notin> ex)
                               [0..<length Y];
                scored = map (\<lambda>i. (i, dot x_u (Y ! i))) candidates
            in Inr (take N (sort_key (\<lambda>(i, s). (- s, i)) scored))))"

subsection \<open>A small data set\<close>

text \<open>
  Three prior orders and one held-out order: user 1 bought product 196 twice and product 7
  once, user 2 bought product 196 once. \<open>example_df\<close> is the frame
  \<open>get_user_product_prior_df\<close> computes from them; the four prior order lines are the
  \<open>product_id\<close> column of the prior orders. \<open>example_fit\<close> is a training routine
  whose model recommends nothing. \<open>example_nb\<close> is the state the cells reach on these
  data.
\<close>

definition example_orders :: "order_row list" where
  "example_orders = [\<lparr>o_order_id = 1, o_user_id = 1, o_eval_set = ''prior''\<rparr>,
                     \<lparr>o_order_id = 2, o_user_id = 1, o_eval_set = ''prior''\<rparr>,
                     \<lparr>o_order_id = 3, o_user_id = 2, o_eval_set = ''prior''\<rparr>,
                     \<lparr>o_order_id = 4, o_user_id = 2, o_eval_set = ''train''\<rparr>]"

definition example_order_products :: "order_product_row list" where
  "example_order_products = [\<lparr>op_order_id = 1, op_product_id = 196\<rparr>,
                             \<lparr>op_order_id = 1, op_product_id = 7\<rparr>,
                             \<lparr>op_order_id = 2, op_product_id = 196\<rparr>,
                             \<lparr>op_order_id = 3, op_product_id = 196\<rparr>,
                             \<lparr>op_order_id = 4, op_product_id = 7\<rparr>]"

definition example_df :: "interaction list" where
  "example_df = [\<lparr>user_id = 1, product_id = 7, quantity = 1\<rparr>,
                 \<lparr>user_id = 1, product_id = 196, quantity = 2\<rparr>,
                 \<lparr>user_id = 2, product_id = 196, quantity = 1\<rparr>]"

definition example_product_ids :: "int list" where
  "example_product_ids = [196, 7, 196, 196]"

definition example_fit :: "rat sparse \<Rightarrow> model" where
  "example_fit c u user_items n = Inr []"

definition example_ties :: "int list \<Rightarrow> int list" where
  "example_ties ks = ks"

definition example_nb :: notebook where
  "example_nb =
     \<lparr>product_user_matrix = \<lparr>shape = (2, 2), entries = [((0, 0), 1), ((1, 0), 2), ((1, 1), 1)]\<rparr>,
      imf_model = build_imf example_fit
        \<lparr>shape = (2, 2), entries = [((0, 0), 1), ((1, 0), 2), ((1, 1), 1)]\<rparr> 15,
      u_dict = [1 \<mapsto> 0, 2 \<mapsto> 1],
      p_dict = [0 \<mapsto> 7, 1 \<mapsto> 196],
      user_product_matrix = \<lparr>shape = (2, 2), entries = [((0, 0), 1), ((0, 1), 2), ((1, 1), 1)]\<rparr>,
      popular_products = [196, 7]\<rparr>"

section \<open>Properties of \<open>recall_score\<close>\<close>

lemma recall_score_sets:
  "recall_score actual pred =
     (if set actual = {} then 0
      else of_nat (card (set actual \<inter> set pred)) / of_nat (card (set actual)))"
  by (simp add: recall_score_def Let_def)

lemma card_set_pos: "xs \<noteq> [] \<Longrightarrow> 0 < card (set xs)"
  by (simp add: card_gt_0_iff)

text \<open>
  Claim C5. For finite collections \<open>actual\<close> and \<open>pred\<close>, \<open>recall_score\<close> is
  \<open>|actual \<inter> pred| / |actual|\<close> when \<open>actual\<close> has an element and 0 when it has none;
  so the recall of the empty collection is 0, the recall of a non-empty collection against
  itself is 1, and the recall of \<open>{1,2,3}\<close> against \<open>{2,3,4,5}\<close> is \<open>2/3\<close>.
\<close>

theorem recall_score_formula:
  "(0 < card (set actual) \<longrightarrow>
      recall_score actual pred
        = of_nat (card (set actual \<inter> set pred)) / of_nat (card (set actual)))
   \<and> (card (set actual) = 0 \<longrightarrow> recall_score actual pred = 0)
   \<and> recall_score [] pred = 0
   \<and> (actual \<noteq> [] \<longrightarrow> recall_score actual actual = 1)
   \<and> recall_score [1, 2, 3 :: int] [2, 3, 4, 5] = 2 / 3"
proof -
  have a: "0 < card (set actual) \<longrightarrow>
      recall_score actual pred
        = of_nat (card (set actual \<inter> set pred)) / of_nat (card (set actual))"
    by (auto simp: recall_score_sets)
  have b: "card (set actual) = 0 \<longrightarrow> recall_score actual pred = 0"
    by (simp add: recall_score_sets)
  have c: "recall_score [] pred = 0"
    by (simp add: recall_score_def)
  have d: "actual \<noteq> [] \<longrightarrow> recall_score actual actual = 1"
    using card_set_pos [of actual] by (auto simp: recall_score_sets)
  have "set [1, 2, 3 :: int] \<inter> set [2, 3, 4, 5] = {2, 3}"
    by auto
  then have e: "recall_score [1, 2, 3 :: int] [2, 3, 4, 5] = 2 / 3"
    by (simp add: recall_score_sets)
  from a b c d e show ?thesis by blast
qed

theorem recall_score_formula_witness:
  "0 < card (set [7, 8, 8 :: int]) \<and> [7, 8, 8 :: int] \<noteq> []
   \<and> recall_score [7, 8, 8 :: int] [8, 9] = 1 / 2
   \<and> recall_score [7, 8, 8 :: int] [7, 8, 8] = 1
   \<and> card (set ([] :: int list)) = 0 \<and> recall_score ([] :: int list) [8, 9] = 0"
proof -
  have h: "0 < card (set [7, 8, 8 :: int])" by simp
  have i: "set [7, 8, 8 :: int] \<inter> set [8, 9] = {8}" by auto
  from recall_score_formula [of "[7, 8, 8 :: int]" "[8, 9]"] h i
  have "recall_score [7, 8, 8 :: int] [8, 9] = 1 / 2
        \<and> recall_score [7, 8, 8 :: int] [7, 8, 8] = 1"
    by simp
  moreover have "recall_score ([] :: int list) [8, 9] = 0"
    using recall_score_formula [of "[] :: int list" "[8, 9]"] by simp
  ultimately show ?thesis using h by simp
qed

text \<open>
  Claim C9. For a fixed \<open>actual\<close>, \<open>recall_score\<close> is monotone in the predicted
  collection: if every element of \<open>P\<close> is an element of \<open>Q\<close> then the recall against \<open>P\<close>
  is at most the recall against \<open>Q\<close>.
\<close>

theorem recall_score_mono:
  assumes "set P \<subseteq> set Q"
  shows "recall_score actual P \<le> recall_score actual Q"
proof (cases "actual = []")
  case True
  then show ?thesis by (simp add: recall_score_def)
next
  case False
  have "set actual \<inter> set P \<subseteq> set actual \<inter> set Q"
    using assms by blast
  then have "card (set actual \<inter> set P) \<le> card (set actual \<inter> set Q)"
    by (intro card_mono) simp_all
  then have "(of_nat (card (set actual \<inter> set P)) :: rat)
               \<le> of_nat (card (set actual \<inter> set Q))"
    by simp
  then show ?thesis
    using False by (simp add: recall_score_sets divide_right_mono)
qed

theorem recall_score_mono_witness:
  "set [2 :: int] \<subseteq> set [2, 3, 4, 5]
   \<and> recall_score [1, 2, 3 :: int] [2] \<le> recall_score [1, 2, 3 :: int] [2, 3, 4, 5]
   \<and> recall_score [1, 2, 3 :: int] [2] = 1 / 3"
proof -
  have h: "set [2 :: int] \<subseteq> set [2, 3, 4, 5]" by simp
  have "set [1, 2, 3 :: int] \<inter> set [2] = {2}" by auto
  then have "recall_score [1, 2, 3 :: int] [2] = 1 / 3"
    by (simp add: recall_score_sets)
  with h recall_score_mono [OF h, of "[1, 2, 3 :: int]"] show ?thesis by simp
qed

text \<open>
  Claim C10. \<open>recall_score\<close> depends only on the sets of elements of its two arguments:
  two argument pairs with the same elements (in any order, with any repetitions) have the
  same recall.
\<close>

theorem recall_score_set_cong:
  assumes "set actual = set actual'" and "set pred = set pred'"
  shows "recall_score actual pred = recall_score actual' pred'"
  using assms by (simp add: recall_score_sets)

theorem recall_score_set_cong_witness:
  "set [1, 2, 3 :: int] = set [3, 1, 2, 2, 1] \<and> set [2, 3, 4, 5 :: int] = set [5, 5, 4, 3, 2]
   \<and> recall_score [1, 2, 3 :: int] [2, 3, 4, 5]
       = recall_score [3, 1, 2, 2, 1 :: int] [5, 5, 4, 3, 2]"
proof -
  have h1: "set [1, 2, 3 :: int] = set [3, 1, 2, 2, 1]" by auto
  have h2: "set [2, 3, 4, 5 :: int] = set [5, 5, 4, 3, 2]" by auto
  from h1 h2 recall_score_set_cong [OF h1 h2] show ?thesis by simp
qed

lemma categories_set: "set (categories xs) = set xs"
  by (simp add: categories_def)

lemma categories_distinct: "distinct (categories xs)"
  by (simp add: categories_def)

lemma categories_sorted: "sorted (categories xs)"
  by (simp add: categories_def)

lemma categories_strict: "sorted_wrt (<) (categories xs)"
  using categories_sorted [of xs] categories_distinct [of xs]
  by (simp add: strict_sorted_iff)

lemma categories_length: "length (categories xs) = card (set xs)"
  using distinct_card [OF categories_distinct [of xs]] by (simp add: categories_set)

lemma categories_cong: "set xs = set ys \<Longrightarrow> categories xs = categories ys"
  by (metis categories_distinct categories_set categories_sorted sorted_distinct_set_unique)

lemma cat_code_less: "x \<in> set cats \<Longrightarrow> cat_code cats x < length cats"
  unfolding cat_code_def by (induction cats) auto

lemma cat_code_nth: "x \<in> set cats \<Longrightarrow> cats ! cat_code cats x = x"
  unfolding cat_code_def by (induction cats) auto

lemma cat_code_of_nth: "distinct cats \<Longrightarrow> i < length cats \<Longrightarrow> cat_code cats (cats ! i) = i"
  unfolding cat_code_def
proof (induction cats arbitrary: i)
  case Nil
  then show ?case by simp
next
  case (Cons c cats)
  then show ?case by (cases i) auto
qed

lemma cat_code_inj: "x \<in> set cats \<Longrightarrow> cat_code cats x = cat_code cats y \<Longrightarrow> x = y"
  unfolding cat_code_def
  by (induction cats) (auto split: if_splits)

lemma u_dict_fold:
  "distinct cats \<Longrightarrow>
   fold (\<lambda>(i, uid) d. d(uid \<mapsto> i)) (enumerate n cats) d0 x
     = (if x \<in> set cats then Some (n + cat_code cats x) else d0 x)"
proof (induction cats arbitrary: n d0)
  case Nil
  then show ?case by simp
next
  case (Cons c cats)
  then show ?case by (auto simp: cat_code_def)
qed

lemma u_dict_of_eq:
  "distinct cats \<Longrightarrow> u_dict_of cats x = (if x \<in> set cats then Some (cat_code cats x) else None)"
  unfolding u_dict_of_def by (simp add: u_dict_fold)

lemma p_dict_fold:
  "fold (\<lambda>(i, pid) d. d(i \<mapsto> pid)) (enumerate n cats) d0 i
     = (if n \<le> i \<and> i < n + length cats then Some (cats ! (i - n)) else d0 i)"
proof (induction cats arbitrary: n d0)
  case Nil
  show ?case by auto
next
  case (Cons c cats)
  let ?f = "\<lambda>(i, pid) d. d(i \<mapsto> pid)"
  have "fold ?f (enumerate n (c # cats)) d0 i
          = fold ?f (enumerate (Suc n) cats) (d0(n \<mapsto> c)) i"
    by simp
  also have "\<dots> = (if Suc n \<le> i \<and> i < Suc n + length cats
                      then Some (cats ! (i - Suc n)) else (d0(n \<mapsto> c)) i)"
    by (rule Cons.IH)
  also have "\<dots> = (if n \<le> i \<and> i < n + length (c # cats)
                      then Some ((c # cats) ! (i - n)) else d0 i)"
    by (auto simp: nth_Cons' Suc_diff_le)
  finally show ?case .
qed

lemma p_dict_of_eq:
  "p_dict_of cats i = (if i < length cats then Some (cats ! i) else None)"
  unfolding p_dict_of_def by (simp add: p_dict_fold)

lemma sint_sum_list:
  "sint (sum_list ws :: 64 word) = signed_take_bit 63 (sum_list (map sint ws))"
proof (induction ws)
  case Nil
  then show ?case by simp
next
  case (Cons w ws)
  have "sint (w + sum_list ws) = signed_take_bit 63 (sint w + sint (sum_list ws))"
    by (simp add: sint_word_ariths)
  also have "\<dots> = signed_take_bit 63 (signed_take_bit 63 (sint w)
                        + signed_take_bit 63 (sum_list (map sint ws)))"
  proof -
    have "signed_take_bit 63 (sint w) = sint w"
      using sint_ge [of w] sint_lt [of w] by (simp add: signed_take_bit_int_eq_self_iff)
    then show ?thesis by (simp add: Cons.IH)
  qed
  also have "\<dots> = signed_take_bit 63 (sint w + sum_list (map sint ws))"
    by (rule signed_take_bit_add)
  finally show ?case by simp
qed

lemma sint_sum_list_exact:
  "- (2 ^ 63) \<le> sum_list (map sint ws) \<Longrightarrow> sum_list (map sint ws) < 2 ^ 63
   \<Longrightarrow> sint (sum_list ws :: 64 word) = sum_list (map sint ws)"
  by (simp add: sint_sum_list signed_take_bit_int_eq_self_iff)

lemma sint_mult_exact:
  "- (2 ^ 63) \<le> sint a * sint b \<Longrightarrow> sint a * sint b < 2 ^ 63
   \<Longrightarrow> sint (a * b :: 64 word) = sint a * sint b"
  by (simp add: sint_word_ariths signed_take_bit_int_eq_self_iff)

lemma zip3_map:
  "zip (zip (map f xs) (map g xs)) (map h xs) = map (\<lambda>x. ((f x, g x), h x)) xs"
  by (induction xs) auto

lemma build_entries:
  "df \<noteq> [] \<Longrightarrow>
   build_product_user_matrix df =
     Inr \<lparr>shape = (Suc (Max (set (codes (map product_id df)))),
                   Suc (Max (set (codes (map user_id df))))),
          entries = map (\<lambda>r. ((cat_code (categories (map product_id df)) (product_id r),
                                cat_code (categories (map user_id df)) (user_id r)),
                               quantity r)) df\<rparr>"
  by (simp add: build_product_user_matrix_def coo_matrix_def codes_def zip3_map o_def)

lemma build_empty: "build_product_user_matrix [] = Inl ValueError"
  by (simp add: build_product_user_matrix_def coo_matrix_def codes_def)

lemma map_of_keyed:
  "map_of (map (\<lambda>k. (k, g k)) ks) k = (if k \<in> set ks then Some (g k) else None)"
  by (induction ks) auto

lemma tocsr_map_of:
  "map_of (entries (tocsr m)) k =
     (if k \<in> fst ` set (entries m)
      then Some (sum_list (map snd (filter (\<lambda>e. fst e = k) (entries m)))) else None)"
  by (simp add: tocsr_def map_of_keyed)

lemma tocsr_shape: "shape (tocsr m) = shape m"
  by (simp add: tocsr_def)

lemma tocsr_keys_distinct: "distinct (map fst (entries (tocsr m)))"
  by (simp add: tocsr_def o_def)

lemma tocsr_keys_set: "fst ` set (entries (tocsr m)) = fst ` set (entries m)"
  by (simp add: tocsr_def image_image)

lemma distinct_filter_one:
  "distinct (map f xs) \<Longrightarrow> x \<in> set xs \<Longrightarrow> length (filter (\<lambda>e. f e = f x) xs) = 1"
proof (induction xs)
  case Nil
  then show ?case by simp
next
  case (Cons a xs)
  show ?case
  proof (cases "a = x")
    case True
    have "f x \<notin> f ` set xs"
      using Cons.prems(1) True by simp
    then have "\<forall>e \<in> set xs. f e \<noteq> f x"
      by (metis imageI)
    then have "filter (\<lambda>e. f e = f x) xs = []"
      by (simp add: filter_empty_conv)
    then show ?thesis using True by simp
  next
    case False
    then have "x \<in> set xs" using Cons.prems(2) by simp
    moreover have "f a \<noteq> f x" using Cons.prems(1) \<open>x \<in> set xs\<close> by auto
    ultimately show ?thesis using Cons by simp
  qed
qed

lemma tocsr_single_entry:
  "k \<in> fst ` set (entries m) \<Longrightarrow> length (filter (\<lambda>e. fst e = k) (entries (tocsr m))) = 1"
proof -
  assume "k \<in> fst ` set (entries m)"
  then have "k \<in> fst ` set (entries (tocsr m))" by (simp only: tocsr_keys_set)
  then obtain x where x: "x \<in> set (entries (tocsr m))" "fst x = k" by auto
  from distinct_filter_one [OF tocsr_keys_distinct x(1)] x(2) show ?thesis by simp
qed

lemma codes_max:
  "x \<in> set xs \<Longrightarrow> cat_code (categories xs) x \<le> Max (set (codes xs))"
  by (simp add: codes_def)

section \<open>Index maps\<close>

text \<open>
  Claim C8. The index maps number the distinct ids of a column (\<open>user_id\<close> or
  \<open>product_id\<close>) from 0 without gaps in ascending order of the id: the categories are
  strictly ascending and are exactly the ids of the column, the codes used for the matrix
  fill \<open>0 ..< number of distinct ids\<close>, \<open>u_dict\<close> sends every id to its code,
  \<open>p_dict\<close> sends the code of every id back to the id, different ids have different
  codes, and the maps depend on the set of ids only, so a second build gives the same maps.
\<close>

theorem index_maps_roundtrip:
  "sorted_wrt (<) (categories ids)
   \<and> set (categories ids) = set ids
   \<and> set (codes ids) = (if ids = [] then {} else {0..<card (set ids)})
   \<and> map (u_dict_of (categories ids)) ids = map Some (codes ids)
   \<and> map (p_dict_of (categories ids)) (codes ids) = map Some ids
   \<and> (\<forall>x \<in> set ids. \<forall>y \<in> set ids.
         cat_code (categories ids) x = cat_code (categories ids) y \<longrightarrow> x = y)
   \<and> dom (u_dict_of (categories ids)) = set ids
   \<and> dom (p_dict_of (categories ids)) = {0..<card (set ids)}
   \<and> (set ids = set ids' \<longrightarrow> categories ids = categories ids')"
proof -
  let ?c = "categories ids"
  have mem: "\<And>x. x \<in> set ids \<Longrightarrow> x \<in> set ?c"
    by (simp add: categories_set)
  have a: "sorted_wrt (<) ?c" by (rule categories_strict)
  have b: "set ?c = set ids" by (rule categories_set)
  have c: "set (codes ids) = (if ids = [] then {} else {0..<card (set ids)})"
  proof (cases "ids = []")
    case True
    then show ?thesis by (simp add: codes_def)
  next
    case False
    have "set (codes ids) = {0..<length ?c}"
    proof (intro set_eqI iffI)
      fix i assume "i \<in> set (codes ids)"
      then obtain x where "x \<in> set ids" "i = cat_code ?c x"
        by (auto simp: codes_def)
      then show "i \<in> {0..<length ?c}"
        using cat_code_less [OF mem] by simp
    next
      fix i assume "i \<in> {0..<length ?c}"
      then have i: "i < length ?c" by simp
      then have "?c ! i \<in> set ids"
        using b nth_mem by blast
      moreover have "cat_code ?c (?c ! i) = i"
        by (rule cat_code_of_nth [OF categories_distinct i])
      ultimately show "i \<in> set (codes ids)"
        by (force simp: codes_def)
    qed
    then show ?thesis using False by (simp add: categories_length)
  qed
  have d: "map (u_dict_of ?c) ids = map Some (codes ids)"
    by (simp add: codes_def u_dict_of_eq categories_distinct categories_set)
  have e: "map (p_dict_of ?c) (codes ids) = map Some ids"
    by (simp add: codes_def p_dict_of_eq cat_code_less cat_code_nth mem)
  have f: "\<forall>x \<in> set ids. \<forall>y \<in> set ids. cat_code ?c x = cat_code ?c y \<longrightarrow> x = y"
    using cat_code_inj [OF mem] by blast
  have g: "dom (u_dict_of ?c) = set ids"
    by (auto simp: dom_def u_dict_of_eq categories_distinct categories_set)
  have h: "dom (p_dict_of ?c) = {0..<card (set ids)}"
    by (auto simp: dom_def p_dict_of_eq categories_length)
  have i: "set ids = set ids' \<longrightarrow> categories ids = categories ids'"
    using categories_cong by blast
  from a b c d e f g h i show ?thesis by blast
qed

theorem index_maps_roundtrip_witness:
  "categories [5, 3, 5, 1] = [1, 3, 5] \<and> codes [5, 3, 5, 1] = [2, 1, 2, 0]
   \<and> map (u_dict_of (categories [5, 3, 5, 1])) [5, 3, 5, 1] = [Some 2, Some 1, Some 2, Some 0]
   \<and> map (p_dict_of (categories [5, 3, 5, 1])) [2, 1, 2, 0] = [Some 5, Some 3, Some 5, Some 1]
   \<and> 5 \<in> set [5, 3, 5, 1 :: int] \<and> 3 \<in> set [5, 3, 5, 1 :: int]
   \<and> cat_code (categories [5, 3, 5, 1]) 5 \<noteq> cat_code (categories [5, 3, 5, 1]) 3
   \<and> set [5, 3, 5, 1 :: int] = set [1, 5, 3, 3]
   \<and> categories [5, 3, 5, 1] = categories [1, 5, 3, 3]"
proof -
  note t = index_maps_roundtrip [of "[5, 3, 5, 1]" "[1, 5, 3, 3]"]
  have c: "categories [5, 3, 5, 1] = [1, 3, 5]"
    by (simp add: categories_def)
  have k: "codes [5, 3, 5, 1] = [2, 1, 2, 0]"
    by (simp add: codes_def c cat_code_def)
  have s: "set [5, 3, 5, 1 :: int] = set [1, 5, 3, 3]"
    by auto
  have m5: "5 \<in> set [5, 3, 5, 1 :: int]" and m3: "3 \<in> set [5, 3, 5, 1 :: int]"
    by simp_all
  from t have "map (u_dict_of (categories [5, 3, 5, 1])) [5, 3, 5, 1]
                 = map Some (codes [5, 3, 5, 1])"
    by blast
  then have u: "map (u_dict_of (categories [5, 3, 5, 1])) [5, 3, 5, 1]
                  = [Some 2, Some 1, Some 2, Some 0]"
    by (simp add: k)
  from t have "map (p_dict_of (categories [5, 3, 5, 1])) (codes [5, 3, 5, 1])
                 = map Some [5, 3, 5, 1]"
    by blast
  then have p: "map (p_dict_of (categories [5, 3, 5, 1])) [2, 1, 2, 0]
                  = [Some 5, Some 3, Some 5, Some 1]"
    by (simp add: k)
  from t have "\<forall>x \<in> set [5, 3, 5, 1 :: int]. \<forall>y \<in> set [5, 3, 5, 1 :: int].
      cat_code (categories [5, 3, 5, 1]) x = cat_code (categories [5, 3, 5, 1]) y \<longrightarrow> x = y"
    by blast
  with m5 m3 have i: "cat_code (categories [5, 3, 5, 1]) 5 \<noteq> cat_code (categories [5, 3, 5, 1]) 3"
    by fastforce
  from t s have e: "categories [5, 3, 5, 1] = categories [1, 5, 3, 3]"
    by blast
  show ?thesis
    by (intro conjI) (fact c k u p m5 m3 i s e)+
qed

section \<open>The frame of prior purchases\<close>

text \<open>
  \<open>get_user_product_prior_df\<close> feeds the Builder: it has one row for each pair of a
  user and a product that occurs among the merged prior order lines, and the row's
  \<open>quantity\<close> is the number of those lines.
\<close>

lemma groupby_size_rows:
  "set (groupby_size ps)
     = (\<lambda>(u, p). \<lparr>user_id = u, product_id = p, quantity = of_nat (count_list ps (u, p))\<rparr>) ` set ps"
  "distinct (map (\<lambda>r. (user_id r, product_id r)) (groupby_size ps))"
  "map (\<lambda>r. (user_id r, product_id r)) (groupby_size ps) = sort (remdups ps)"
proof -
  show k: "map (\<lambda>r. (user_id r, product_id r)) (groupby_size ps) = sort (remdups ps)"
    by (simp add: groupby_size_def o_def case_prod_unfold)
  show "distinct (map (\<lambda>r. (user_id r, product_id r)) (groupby_size ps))"
    unfolding k by simp
  show "set (groupby_size ps)
     = (\<lambda>(u, p). \<lparr>user_id = u, product_id = p, quantity = of_nat (count_list ps (u, p))\<rparr>) ` set ps"
    by (simp add: groupby_size_def)
qed

lemma example_merged:
  "merge_on_order_id (filter (\<lambda>r. o_eval_set r = ''prior'') example_orders) example_order_products
     = [(1, 196), (1, 7), (1, 196), (2, 196)]"
  by (simp add: merge_on_order_id_def example_orders_def example_order_products_def)

lemma get_user_product_prior_df_example:
  "get_user_product_prior_df example_orders example_order_products = example_df"
  by (simp add: get_user_product_prior_df_def example_merged groupby_size_def example_df_def)

section \<open>Aggregation of duplicate pairs\<close>

lemma filter_entries_of_row:
  assumes "r \<in> set df"
  shows "filter (\<lambda>e. fst e = (cat_code (categories (map product_id df)) (product_id r),
                             cat_code (categories (map user_id df)) (user_id r)))
           (map (\<lambda>r. ((cat_code (categories (map product_id df)) (product_id r),
                        cat_code (categories (map user_id df)) (user_id r)),
                       quantity r)) df)
         = map (\<lambda>r. ((cat_code (categories (map product_id df)) (product_id r),
                       cat_code (categories (map user_id df)) (user_id r)),
                      quantity r))
             (filter (\<lambda>r'. user_id r' = user_id r \<and> product_id r' = product_id r) df)"
proof -
  let ?pc = "cat_code (categories (map product_id df))"
  let ?uc = "cat_code (categories (map user_id df))"
  have p: "product_id r' = product_id r" if "r' \<in> set df" "?pc (product_id r') = ?pc (product_id r)" for r'
    using that cat_code_inj [of "product_id r'" "categories (map product_id df)" "product_id r"]
    by (simp add: categories_set)
  have u: "user_id r' = user_id r" if "r' \<in> set df" "?uc (user_id r') = ?uc (user_id r)" for r'
    using that cat_code_inj [of "user_id r'" "categories (map user_id df)" "user_id r"]
    by (simp add: categories_set)
  have "filter (\<lambda>r'. (?pc (product_id r'), ?uc (user_id r')) = (?pc (product_id r), ?uc (user_id r))) df
          = filter (\<lambda>r'. user_id r' = user_id r \<and> product_id r' = product_id r) df"
    by (rule filter_cong) (auto dest: p u)
  then show ?thesis by (simp add: filter_map o_def)
qed

text \<open>
  The matrix built from any frame holds, at the codes of a row's pair, one stored entry
  whose value is the sum of the counts of all rows of the frame with that pair (in
  \<open>int64\<close>; the mathematical sum whenever that fits into 64 bits).
\<close>

lemma frame_entry_sum:
  assumes "r \<in> set df"
  shows "\<exists>coo. build_product_user_matrix df = Inr coo
     \<and> (let ij = (cat_code (categories (map product_id df)) (product_id r),
                  cat_code (categories (map user_id df)) (user_id r));
             same = filter (\<lambda>r'. user_id r' = user_id r \<and> product_id r' = product_id r) df
         in getitem (tocsr coo) ij = Inr (sum_list (map quantity same))
            \<and> length (filter (\<lambda>e. fst e = ij) (entries (tocsr coo))) = 1
            \<and> (- (2 ^ 63) \<le> (\<Sum>r'\<leftarrow>same. sint (quantity r'))
                 \<and> (\<Sum>r'\<leftarrow>same. sint (quantity r')) < 2 ^ 63
               \<longrightarrow> sint (sum_list (map quantity same)) = (\<Sum>r'\<leftarrow>same. sint (quantity r'))))"
proof -
  let ?pc = "cat_code (categories (map product_id df))"
  let ?uc = "cat_code (categories (map user_id df))"
  let ?ij = "(?pc (product_id r), ?uc (user_id r))"
  let ?same = "filter (\<lambda>r'. user_id r' = user_id r \<and> product_id r' = product_id r) df"
  let ?E = "map (\<lambda>r. ((?pc (product_id r), ?uc (user_id r)), quantity r)) df"
  let ?coo = "\<lparr>shape = (Suc (Max (set (codes (map product_id df)))),
                       Suc (Max (set (codes (map user_id df))))),
              entries = ?E\<rparr>"
  from assms have ne: "df \<noteq> []" by auto
  then have coo: "build_product_user_matrix df = Inr ?coo"
    by (rule build_entries)
  have key: "?ij \<in> fst ` set (entries ?coo)"
    using assms by (force simp: image_iff)
  have inside: "fst ?ij < fst (shape (tocsr ?coo)) \<and> snd ?ij < snd (shape (tocsr ?coo))"
    using assms codes_max [of "product_id r" "map product_id df"]
      codes_max [of "user_id r" "map user_id df"]
    by (simp add: tocsr_shape less_Suc_eq_le)
  have "sum_list (map snd (filter (\<lambda>e. fst e = ?ij) ?E)) = sum_list (map quantity ?same)"
    by (simp add: filter_entries_of_row [OF assms] o_def)
  then have val: "map_of (entries (tocsr ?coo)) ?ij = Some (sum_list (map quantity ?same))"
    using key by (simp add: tocsr_map_of)
  have a: "getitem (tocsr ?coo) ?ij = Inr (sum_list (map quantity ?same))"
    using inside val by (simp add: getitem_def)
  have b: "length (filter (\<lambda>e. fst e = ?ij) (entries (tocsr ?coo))) = 1"
    by (rule tocsr_single_entry [OF key])
  have c: "- (2 ^ 63) \<le> (\<Sum>r'\<leftarrow>?same. sint (quantity r'))
             \<and> (\<Sum>r'\<leftarrow>?same. sint (quantity r')) < 2 ^ 63
           \<longrightarrow> sint (sum_list (map quantity ?same)) = (\<Sum>r'\<leftarrow>?same. sint (quantity r'))"
    using sint_sum_list_exact [of "map quantity ?same"] by (simp add: o_def)
  from coo a b c show ?thesis
    unfolding Let_def by blast
qed

lemma filter_eq_distinct:
  "distinct xs \<Longrightarrow> x \<in> set xs \<Longrightarrow> filter (\<lambda>y. y = x) xs = [x]"
proof (induction xs)
  case Nil
  then show ?case by simp
next
  case (Cons a xs)
  show ?case
  proof (cases "a = x")
    case True
    then have "x \<notin> set xs" using Cons.prems(1) by simp
    then have "filter (\<lambda>y. y = x) xs = []"
      by (auto simp: filter_empty_conv)
    then show ?thesis using True by simp
  next
    case False
    then show ?thesis using Cons by simp
  qed
qed

lemma groupby_size_pair:
  assumes "(u, p) \<in> set ps"
  shows "filter (\<lambda>r. user_id r = u \<and> product_id r = p) (groupby_size ps)
           = [\<lparr>user_id = u, product_id = p, quantity = of_nat (count_list ps (u, p))\<rparr>]"
proof -
  let ?F = "\<lambda>(u, p). \<lparr>user_id = u, product_id = p, quantity = of_nat (count_list ps (u, p))\<rparr>"
  let ?ks = "sort (remdups ps)"
  have d: "distinct ?ks" by simp
  have m: "(u, p) \<in> set ?ks" using assms by simp
  have "filter (\<lambda>r. user_id r = u \<and> product_id r = p) (map ?F ?ks)
          = map ?F (filter (\<lambda>k. k = (u, p)) ?ks)"
    by (simp add: filter_map o_def case_prod_unfold prod_eq_iff)
  also have "\<dots> = map ?F [(u, p)]"
    by (simp only: filter_eq_distinct [OF d m])
  finally show ?thesis
    by (simp add: groupby_size_def)
qed

lemma count_list_pos: "x \<in> set xs \<Longrightarrow> 0 < count_list xs x"
  by (induction xs) auto

lemma count_list_unit_sum:
  "int (count_list xs y) = (\<Sum>x\<leftarrow>filter (\<lambda>x. x = y) xs. 1)"
  by (induction xs) auto

lemma sint_of_nat_small:
  "n < 2 ^ 63 \<Longrightarrow> sint (of_nat n :: 64 word) = int n"
proof -
  assume "n < 2 ^ 63"
  then have "int n < 2 ^ 63" by (metis of_nat_less_iff of_nat_numeral of_nat_power)
  moreover have "take_bit 64 n = n"
    using \<open>n < 2 ^ 63\<close> by (simp add: take_bit_nat_eq_self)
  then have "sint (of_nat n :: 64 word) = signed_take_bit 63 (int n)"
    by (simp add: sint_uint take_bit_of_nat signed_take_bit_take_bit unsigned_of_nat)
  ultimately show ?thesis
    by (simp add: signed_take_bit_int_eq_self_iff)
qed

text \<open>
  Claim C3. The Builder turns all occurrences of the same \<open>(user_id, product_id)\<close> pair
  into a single entry whose count is the sum of the individual counts. Its input is the
  sequence of prior order lines, each one purchase of a product by the order's user, a
  count of 1: \<open>get_user_product_prior_df\<close> has exactly one row for every pair that
  occurs among them and no other row, the row's \<open>quantity\<close> is the sum of the unit
  counts of the pair's lines (their number, at least 1), and the utility matrix built from
  the frame holds that number in one stored entry at the pair's codes. Where a frame gives
  a pair in several rows with counts of their own, the matrix holds one entry with the sum
  of those counts, neither the last of them nor their number.
\<close>

theorem aggregation_sums_counts:
  assumes "(u, p) \<in> set (merge_on_order_id (filter (\<lambda>r. o_eval_set r = ''prior'') df_orders)
                            df_order_products_prior)"
    and "r \<in> set frame"
  shows "(let merged = merge_on_order_id (filter (\<lambda>r. o_eval_set r = ''prior'') df_orders)
                        df_order_products_prior;
              df = get_user_product_prior_df df_orders df_order_products_prior;
              n = count_list merged (u, p);
              ij = (cat_code (categories (map product_id df)) p,
                    cat_code (categories (map user_id df)) u)
          in filter (\<lambda>r'. user_id r' = u \<and> product_id r' = p) df
               = [\<lparr>user_id = u, product_id = p, quantity = of_nat n\<rparr>]
             \<and> int n = (\<Sum>x\<leftarrow>filter (\<lambda>x. x = (u, p)) merged. 1)
             \<and> 0 < n
             \<and> (n < 2 ^ 63 \<longrightarrow> sint (of_nat n :: 64 word) = int n)
             \<and> map (\<lambda>r'. (user_id r', product_id r')) df = sort (remdups merged)
             \<and> (\<exists>coo. build_product_user_matrix df = Inr coo
                   \<and> getitem (tocsr coo) ij = Inr (of_nat n)
                   \<and> length (filter (\<lambda>e. fst e = ij) (entries (tocsr coo))) = 1))
     \<and> (\<exists>coo. build_product_user_matrix frame = Inr coo
     \<and> (let ij = (cat_code (categories (map product_id frame)) (product_id r),
                  cat_code (categories (map user_id frame)) (user_id r));
             same = filter (\<lambda>r'. user_id r' = user_id r \<and> product_id r' = product_id r) frame
         in getitem (tocsr coo) ij = Inr (sum_list (map quantity same))
            \<and> length (filter (\<lambda>e. fst e = ij) (entries (tocsr coo))) = 1
            \<and> (- (2 ^ 63) \<le> (\<Sum>r'\<leftarrow>same. sint (quantity r'))
                 \<and> (\<Sum>r'\<leftarrow>same. sint (quantity r')) < 2 ^ 63
               \<longrightarrow> sint (sum_list (map quantity same)) = (\<Sum>r'\<leftarrow>same. sint (quantity r')))))"
proof -
  let ?merged = "merge_on_order_id (filter (\<lambda>r. o_eval_set r = ''prior'') df_orders)
                   df_order_products_prior"
  let ?df = "get_user_product_prior_df df_orders df_order_products_prior"
  let ?n = "count_list ?merged (u, p)"
  let ?row = "\<lparr>user_id = u, product_id = p, quantity = of_nat ?n\<rparr>"
  let ?ij = "(cat_code (categories (map product_id ?df)) p,
              cat_code (categories (map user_id ?df)) u)"
  have df: "?df = groupby_size ?merged"
    by (simp add: get_user_product_prior_df_def Let_def)
  have a: "filter (\<lambda>r'. user_id r' = u \<and> product_id r' = p) ?df = [?row]"
    unfolding df by (rule groupby_size_pair [OF assms(1)])
  have b: "int ?n = (\<Sum>x\<leftarrow>filter (\<lambda>x. x = (u, p)) ?merged. 1)"
    by (rule count_list_unit_sum)
  have c: "0 < ?n"
    by (rule count_list_pos [OF assms(1)])
  have d: "?n < 2 ^ 63 \<longrightarrow> sint (of_nat ?n :: 64 word) = int ?n"
    using sint_of_nat_small by blast
  have e: "map (\<lambda>r'. (user_id r', product_id r')) ?df = sort (remdups ?merged)"
    unfolding df by (rule groupby_size_rows(3))
  have "?row \<in> set (filter (\<lambda>r'. user_id r' = u \<and> product_id r' = p) ?df)"
    by (simp only: a list.set_intros)
  then have mem: "?row \<in> set ?df" by simp
  from frame_entry_sum [OF mem] a
  have f: "\<exists>coo. build_product_user_matrix ?df = Inr coo
                   \<and> getitem (tocsr coo) ?ij = Inr (of_nat ?n)
                   \<and> length (filter (\<lambda>e. fst e = ?ij) (entries (tocsr coo))) = 1"
    by (simp add: Let_def)
  have h: "filter (\<lambda>r'. user_id r' = u \<and> product_id r' = p) ?df = [?row]
             \<and> int ?n = (\<Sum>x\<leftarrow>filter (\<lambda>x. x = (u, p)) ?merged. 1)
             \<and> 0 < ?n
             \<and> (?n < 2 ^ 63 \<longrightarrow> sint (of_nat ?n :: 64 word) = int ?n)
             \<and> map (\<lambda>r'. (user_id r', product_id r')) ?df = sort (remdups ?merged)
             \<and> (\<exists>coo. build_product_user_matrix ?df = Inr coo
                   \<and> getitem (tocsr coo) ?ij = Inr (of_nat ?n)
                   \<and> length (filter (\<lambda>e. fst e = ?ij) (entries (tocsr coo))) = 1)"
    using a b c d e f by (intro conjI)
  note g = frame_entry_sum [OF assms(2), unfolded Let_def]
  show ?thesis
    unfolding Let_def using h g by (rule conjI)
qed

theorem aggregation_sums_counts_witness:
  "(1, 196) \<in> set (merge_on_order_id (filter (\<lambda>r. o_eval_set r = ''prior'') example_orders)
                      example_order_products)
   \<and> \<lparr>user_id = 1, product_id = 196, quantity = 4\<rparr>
        \<in> set [\<lparr>user_id = 1, product_id = 196, quantity = 4\<rparr>,
               \<lparr>user_id = 2, product_id = 196, quantity = 1\<rparr>,
               \<lparr>user_id = 1, product_id = 196, quantity = 6\<rparr>]
   \<and> count_list (merge_on_order_id (filter (\<lambda>r. o_eval_set r = ''prior'') example_orders)
                   example_order_products) (1, 196) = 2
   \<and> (2 :: nat) < 2 ^ 63
   \<and> get_user_product_prior_df example_orders example_order_products = example_df
   \<and> filter (\<lambda>r'. user_id r' = 1 \<and> product_id r' = 196) example_df
        = [\<lparr>user_id = 1, product_id = 196, quantity = 2\<rparr>]
   \<and> sint (2 :: 64 word) = 2
   \<and> (\<exists>coo. build_product_user_matrix example_df = Inr coo
          \<and> getitem (tocsr coo) (1, 0) = Inr 2
          \<and> length (filter (\<lambda>e. fst e = (1, 0)) (entries (tocsr coo))) = 1)
   \<and> - (2 ^ 63) \<le> sint (4 :: 64 word) + sint (6 :: 64 word)
   \<and> sint (4 :: 64 word) + sint (6 :: 64 word) < 2 ^ 63
   \<and> (\<exists>coo. build_product_user_matrix
               [\<lparr>user_id = 1, product_id = 196, quantity = 4\<rparr>,
                \<lparr>user_id = 2, product_id = 196, quantity = 1\<rparr>,
                \<lparr>user_id = 1, product_id = 196, quantity = 6\<rparr>] = Inr coo
           \<and> getitem (tocsr coo) (0, 0) = Inr (4 + 6)
           \<and> length (filter (\<lambda>e. fst e = (0, 0)) (entries (tocsr coo))) = 1)
   \<and> sint (4 + 6 :: 64 word) = 10"
proof -
  let ?merged = "merge_on_order_id (filter (\<lambda>r. o_eval_set r = ''prior'') example_orders)
                   example_order_products"
  let ?r = "\<lparr>user_id = 1, product_id = 196, quantity = 4\<rparr>"
  let ?frame = "[?r, \<lparr>user_id = 2, product_id = 196, quantity = 1\<rparr>,
                 \<lparr>user_id = 1, product_id = 196, quantity = 6\<rparr>]"
  have h1: "(1, 196) \<in> set ?merged"
    by (simp add: example_merged)
  have h2: "?r \<in> set ?frame" by simp
  have n: "count_list ?merged (1, 196) = 2"
    by (simp add: example_merged)
  have small: "(2 :: nat) < 2 ^ 63" by simp
  have df: "get_user_product_prior_df example_orders example_order_products = example_df"
    by (rule get_user_product_prior_df_example)
  have pc: "cat_code (categories (map product_id example_df)) 196 = 1"
    by (simp add: example_df_def categories_def cat_code_def)
  have uc: "cat_code (categories (map user_id example_df)) 1 = 0"
    by (simp add: example_df_def categories_def cat_code_def)
  have p: "cat_code (categories (map product_id ?frame)) (product_id ?r) = 0"
    by (simp add: categories_def cat_code_def)
  have u: "cat_code (categories (map user_id ?frame)) (user_id ?r) = 0"
    by (simp add: categories_def cat_code_def)
  have same: "filter (\<lambda>r'. user_id r' = user_id ?r \<and> product_id r' = product_id ?r) ?frame
                = [?r, \<lparr>user_id = 1, product_id = 196, quantity = 6\<rparr>]"
    by simp
  have lo: "- (2 ^ 63) \<le> sint (4 :: 64 word) + sint (6 :: 64 word)" by simp
  have hi: "sint (4 :: 64 word) + sint (6 :: 64 word) < 2 ^ 63" by simp
  note t = aggregation_sums_counts [OF h1 h2, unfolded Let_def df n pc uc p u same]
  from t have a: "filter (\<lambda>r'. user_id r' = 1 \<and> product_id r' = 196) example_df
        = [\<lparr>user_id = 1, product_id = 196, quantity = 2\<rparr>]"
    by simp
  from t small have b: "sint (2 :: 64 word) = 2"
    by simp
  from t have c: "\<exists>coo. build_product_user_matrix example_df = Inr coo
          \<and> getitem (tocsr coo) (1, 0) = Inr 2
          \<and> length (filter (\<lambda>e. fst e = (1, 0)) (entries (tocsr coo))) = 1"
    by simp
  from t obtain coo where coo: "build_product_user_matrix ?frame = Inr coo"
    and g: "getitem (tocsr coo) (0, 0) = Inr (4 + 6)"
    and l: "length (filter (\<lambda>e. fst e = (0, 0)) (entries (tocsr coo))) = 1"
    and s: "- (2 ^ 63) \<le> sint (4 :: 64 word) + sint (6 :: 64 word)
              \<and> sint (4 :: 64 word) + sint (6 :: 64 word) < 2 ^ 63
            \<longrightarrow> sint (4 + 6 :: 64 word) = sint (4 :: 64 word) + sint (6 :: 64 word)"
    by auto
  from s lo hi have e: "sint (4 + 6 :: 64 word) = 10" by simp
  from coo g l have d: "\<exists>coo. build_product_user_matrix ?frame = Inr coo
           \<and> getitem (tocsr coo) (0, 0) = Inr (4 + 6)
           \<and> length (filter (\<lambda>e. fst e = (0, 0)) (entries (tocsr coo))) = 1"
    by blast
  show ?thesis
    by (intro conjI) (fact h1 h2 n small df a b c lo hi d e)+
qed

section \<open>Confidence matrix\<close>

lemma round_half_even_of_int: "round_half_even (of_int n) = n"
  by (simp add: round_half_even_def)

lemma bitlen_two_power: "bitlen (2 ^ n) = int n + 1"
  using bitlen_pow2 [of 1 n] by (simp add: compute_bitlen)

lemma double_of_int_exact:
  assumes "\<bar>n\<bar> \<le> 2 ^ 53"
  shows "(of_int (round_half_even (of_int n / 2 ^ nat (bitlen \<bar>n\<bar> - 53))
            * 2 ^ nat (bitlen \<bar>n\<bar> - 53)) :: rat) = of_int n"
proof (cases "\<bar>n\<bar> < 2 ^ 53")
  case True
  then have "bitlen \<bar>n\<bar> \<le> 53"
    by (simp add: bitlen_le_iff_power)
  then have "nat (bitlen \<bar>n\<bar> - 53) = 0" by simp
  then show ?thesis by (simp add: round_half_even_of_int)
next
  case False
  with assms have n: "\<bar>n\<bar> = 2 ^ 53" by simp
  have "bitlen (2 ^ 53) = 54"
    using bitlen_two_power [of 53] by simp
  with n have e: "nat (bitlen \<bar>n\<bar> - 53) = 1"
    by simp
  from n have "n = 2 ^ 53 \<or> n = - (2 ^ 53)" by linarith
  then have "(of_int n / 2 :: rat) = of_int (n div 2) \<and> n div 2 * 2 = n"
    by auto
  then show ?thesis
    by (simp add: e round_half_even_of_int)
qed

lemma astype_double_exact:
  "\<bar>sint w\<bar> \<le> 2 ^ 53 \<Longrightarrow> astype_double w = of_int (sint w)"
  unfolding astype_double_def Let_def by (rule double_of_int_exact)

lemma astype_double_zero: "astype_double 0 = 0"
  by (simp add: astype_double_exact)

lemma map_of_map_values:
  "map_of (map (\<lambda>(k, v). (k, f v)) es) k = map_option f (map_of es k)"
  by (induction es) auto

lemma getitem_confidence_matrix:
  "getitem (confidence_matrix m alpha) ij
     = (case getitem m ij of Inl e \<Rightarrow> Inl e | Inr r \<Rightarrow> Inr (astype_double (r * alpha)))"
  by (auto simp: getitem_def confidence_matrix_def map_of_map_values astype_double_zero
      split: option.splits)

text \<open>
  Claim C1, as amended. The confidence matrix holds, at every position of the utility
  matrix, the raw count times \<open>alpha\<close> converted to a double: with a raw count \<open>r\<close> the
  value is \<open>alpha * r\<close> (exactly so whenever \<open>|alpha * r| \<le> 2^53\<close>), and no 1 is
  added; with \<open>alpha = 15\<close> and \<open>r = 10\<close> the value is 150.
\<close>

theorem confidence_is_alpha_times_count:
  assumes "getitem m ij = Inr r"
  shows "getitem (confidence_matrix m alpha) ij = Inr (astype_double (r * alpha))
     \<and> (\<bar>sint alpha * sint r\<bar> \<le> 2 ^ 53 \<longrightarrow> astype_double (r * alpha) = of_int (sint alpha * sint r))
     \<and> map fst (entries (confidence_matrix m alpha)) = map fst (entries m)
     \<and> astype_double (10 * 15) = 150"
proof -
  have a: "getitem (confidence_matrix m alpha) ij = Inr (astype_double (r * alpha))"
    by (simp add: getitem_confidence_matrix assms)
  have b: "astype_double (r * alpha) = of_int (sint alpha * sint r)"
    if "\<bar>sint alpha * sint r\<bar> \<le> 2 ^ 53"
  proof -
    from that have "- (2 ^ 63) \<le> sint r * sint alpha" "sint r * sint alpha < 2 ^ 63"
      by (simp_all add: abs_le_iff mult.commute)
    then have "sint (r * alpha) = sint r * sint alpha"
      by (rule sint_mult_exact)
    with that show ?thesis
      by (simp add: astype_double_exact mult.commute)
  qed
  have c: "map fst (entries (confidence_matrix m alpha)) = map fst (entries m)"
    by (simp add: confidence_matrix_def o_def case_prod_unfold)
  have d: "astype_double (10 * 15) = 150"
    by (simp add: astype_double_exact)
  from a b c d show ?thesis by blast
qed

theorem confidence_is_alpha_times_count_witness:
  "getitem \<lparr>shape = (1, 1), entries = [((0, 0), 10 :: 64 word)]\<rparr> (0, 0) = Inr 10
   \<and> \<bar>sint (15 :: 64 word) * sint (10 :: 64 word)\<bar> \<le> 2 ^ 53
   \<and> getitem (confidence_matrix \<lparr>shape = (1, 1), entries = [((0, 0), 10)]\<rparr> 15) (0, 0) = Inr 150"
proof -
  let ?m = "\<lparr>shape = (1, 1), entries = [((0, 0), 10 :: 64 word)]\<rparr>"
  have h: "getitem ?m (0, 0) = Inr 10"
    by (simp add: getitem_def)
  have i: "\<bar>sint (15 :: 64 word) * sint (10 :: 64 word)\<bar> \<le> 2 ^ 53"
    by simp
  from confidence_is_alpha_times_count [OF h, of 15] i
  have "getitem (confidence_matrix ?m 15) (0, 0) = Inr 150"
    by simp
  with h i show ?thesis by blast
qed

text \<open>
  Claim C1 as the specification states it (confidence \<open>1 + alpha * r\<close>, 151 for
  \<open>alpha = 15\<close> and \<open>r = 10\<close>) fails on the notebook's own example: user 1 bought
  product 196 ten times (the assertion of cell 7 reads \<open>product_user_matrix[195, 0] == 10\<close>),
  and the confidence stored for that entry is 150.
\<close>

theorem confidence_not_one_plus_counterexample:
  "build_product_user_matrix [\<lparr>user_id = 1, product_id = 196, quantity = 10\<rparr>]
     = Inr \<lparr>shape = (1, 1), entries = [((0, 0), 10)]\<rparr>
   \<and> tocsr \<lparr>shape = (1, 1), entries = [((0, 0), 10 :: 64 word)]\<rparr>
     = \<lparr>shape = (1, 1), entries = [((0, 0), 10)]\<rparr>
   \<and> getitem (confidence_matrix \<lparr>shape = (1, 1), entries = [((0, 0), 10)]\<rparr> 15) (0, 0)
     = Inr 150
   \<and> (150 :: rat) \<noteq> 1 + 15 * 10"
proof -
  have "build_product_user_matrix [\<lparr>user_id = 1, product_id = 196, quantity = 10\<rparr>]
          = Inr \<lparr>shape = (1, 1), entries = [((0, 0), 10)]\<rparr>"
    by (simp add: build_product_user_matrix_def coo_matrix_def codes_def categories_def
        cat_code_def)
  moreover have "tocsr \<lparr>shape = (1, 1), entries = [((0, 0), 10 :: 64 word)]\<rparr>
          = \<lparr>shape = (1, 1), entries = [((0, 0), 10)]\<rparr>"
    by (simp add: tocsr_def)
  moreover have "getitem (confidence_matrix \<lparr>shape = (1, 1), entries = [((0, 0), 10)]\<rparr> 15) (0, 0)
          = Inr (astype_double (10 * 15))"
    unfolding getitem_confidence_matrix by (simp add: getitem_def)
  moreover have "astype_double (10 * 15) = 150"
    by (simp add: astype_double_exact)
  ultimately show ?thesis by simp
qed

section \<open>The evaluation functions on the notebook's state\<close>

lemma sequence_map_Inr:
  "(\<And>x. x \<in> set xs \<Longrightarrow> f x = Inr (g x)) \<Longrightarrow> sequence (map f xs) = Inr (map g xs)"
  by (induction xs) auto

lemma run_cells_Inr:
  assumes "run_cells fit ties df col = Inr nb"
  shows "df \<noteq> []"
    and "u_dict nb = u_dict_of (categories (map user_id df))"
    and "p_dict nb = p_dict_of (categories (map product_id df))"
    and "popular_products nb = get_k_popular ties N_REC col"
    and "\<exists>coo. build_product_user_matrix df = Inr coo
           \<and> product_user_matrix nb = tocsr coo
           \<and> user_product_matrix nb = tocsr (transpose_T (tocsr coo))"
proof -
  show "df \<noteq> []"
    using assms by (auto simp: run_cells_def build_empty)
  then obtain coo where coo: "build_product_user_matrix df = Inr coo"
    using build_entries by blast
  with assms have nb: "nb = \<lparr>product_user_matrix = tocsr coo,
                   imf_model = build_imf fit (tocsr coo) 15,
                   u_dict = u_dict_of (categories (map user_id df)),
                   p_dict = p_dict_of (categories (map product_id df)),
                   user_product_matrix = tocsr (transpose_T (tocsr coo)),
                   popular_products = get_k_popular ties N_REC col\<rparr>"
    by (simp add: run_cells_def Let_def)
  show "u_dict nb = u_dict_of (categories (map user_id df))"
    and "p_dict nb = p_dict_of (categories (map product_id df))"
    and "popular_products nb = get_k_popular ties N_REC col"
    by (simp_all add: nb)
  show "\<exists>coo. build_product_user_matrix df = Inr coo
           \<and> product_user_matrix nb = tocsr coo
           \<and> user_product_matrix nb = tocsr (transpose_T (tocsr coo))"
    using coo by (simp add: nb)
qed

lemma transpose_T_keys:
  "fst ` set (entries (transpose_T m)) = (\<lambda>(i, j). (j, i)) ` fst ` set (entries m)"
  by (force simp: transpose_T_def image_iff)

lemma user_product_keys:
  assumes "build_product_user_matrix df = Inr coo"
  shows "fst ` set (entries (tocsr (transpose_T (tocsr coo))))
           = (\<lambda>r. (cat_code (categories (map user_id df)) (user_id r),
                     cat_code (categories (map product_id df)) (product_id r))) ` set df"
proof -
  from assms have "df \<noteq> []" using build_empty by auto
  from build_entries [OF this] assms
  have "fst ` set (entries coo)
          = (\<lambda>r. (cat_code (categories (map product_id df)) (product_id r),
                    cat_code (categories (map user_id df)) (user_id r))) ` set df"
    by (auto simp: image_iff)
  then show ?thesis
    by (simp add: tocsr_keys_set transpose_T_keys image_image)
qed

lemma user_product_shape:
  assumes "build_product_user_matrix df = Inr coo"
  shows "shape (tocsr (transpose_T (tocsr coo)))
           = (Suc (Max (set (codes (map user_id df)))), Suc (Max (set (codes (map product_id df)))))"
proof -
  from assms have "df \<noteq> []" using build_empty by auto
  from build_entries [OF this] assms show ?thesis
    by (auto simp: tocsr_shape transpose_T_def)
qed

lemma row_indices_set:
  "row_indices m i = Inr js \<Longrightarrow> set js = {j. (i, j) \<in> fst ` set (entries m)}"
  by (force simp: row_indices_def image_iff split: if_splits)

lemma new_products_known_user:
  assumes nb: "run_cells fit ties df col = Inr nb"
    and parse: "parse_products (row_products row) = Inr actual"
    and known: "row_user_id row \<in> user_id ` set df"
  shows "new_products nb row
     = Inr (filter (\<lambda>p. p \<notin> product_id ` {r \<in> set df. user_id r = row_user_id row})
              (remdups actual))"
proof -
  let ?ucats = "categories (map user_id df)"
  let ?pcats = "categories (map product_id df)"
  let ?uid = "row_user_id row"
  let ?u = "cat_code ?ucats ?uid"
  note facts = run_cells_Inr [OF nb]
  from facts(5) obtain coo where coo: "build_product_user_matrix df = Inr coo"
    and upm: "user_product_matrix nb = tocsr (transpose_T (tocsr coo))"
    by blast
  from known have uid: "?uid \<in> set (map user_id df)" by simp
  have lookup_u: "lookup (u_dict nb) ?uid = Inr ?u"
    using uid by (simp add: lookup_def facts(2) u_dict_of_eq categories_distinct categories_set)
  have "?u \<le> Max (set (codes (map user_id df)))"
    by (rule codes_max [OF uid])
  then have "?u < fst (shape (user_product_matrix nb))"
    by (simp add: upm user_product_shape [OF coo])
  then obtain indices where ri: "row_indices (user_product_matrix nb) ?u = Inr indices"
    by (simp add: row_indices_def)
  have "set indices = {j. (?u, j) \<in> fst ` set (entries (user_product_matrix nb))}"
    by (rule row_indices_set [OF ri])
  also have "\<dots> = cat_code ?pcats ` product_id ` {r \<in> set df. user_id r = ?uid}"
  proof -
    have "cat_code ?ucats (user_id r) = ?u \<longleftrightarrow> user_id r = ?uid" if "r \<in> set df" for r
      using cat_code_inj [of "user_id r" ?ucats ?uid] that
      by (auto simp: categories_set)
    then show ?thesis
      unfolding upm user_product_keys [OF coo] by (force simp: image_iff)
  qed
  finally have ind: "set indices = cat_code ?pcats ` product_id ` {r \<in> set df. user_id r = ?uid}" .
  have lk: "lookup (p_dict nb) i = Inr (?pcats ! i)" if "i \<in> set indices" for i
  proof -
    from that ind obtain r where "r \<in> set df" "i = cat_code ?pcats (product_id r)"
      by auto
    then have "i < length ?pcats"
      using cat_code_less [of "product_id r" ?pcats] by (simp add: categories_set)
    then show ?thesis
      by (simp add: lookup_def facts(3) p_dict_of_eq)
  qed
  have seq: "sequence (map (lookup (p_dict nb)) indices) = Inr (map (\<lambda>i. ?pcats ! i) indices)"
    by (rule sequence_map_Inr) (rule lk)
  have liked: "set (map (\<lambda>i. ?pcats ! i) indices)
                 = product_id ` {r \<in> set df. user_id r = ?uid}"
  proof -
    have "?pcats ! cat_code ?pcats (product_id r) = product_id r" if "r \<in> set df" for r
      using cat_code_nth [of "product_id r" ?pcats] that by (simp add: categories_set)
    then show ?thesis
      unfolding set_map ind by (force simp: image_iff)
  qed
  have "new_products nb row
          = Inr (filter (\<lambda>p. p \<notin> set (map (\<lambda>i. ?pcats ! i) indices)) (remdups actual))"
    by (simp add: new_products_def parse lookup_u ri seq)
  then show ?thesis
    by (simp only: liked)
qed

lemma new_products_unknown_user:
  assumes "parse_products (row_products row) = Inr actual"
    and "u_dict nb (row_user_id row) = None"
  shows "new_products nb row = Inl KeyError"
  using assms by (simp add: new_products_def lookup_def)

lemma run_cells_u_dict_None:
  assumes "run_cells fit ties df col = Inr nb"
  shows "u_dict nb uid = None \<longleftrightarrow> uid \<notin> user_id ` set df"
  by (simp add: run_cells_Inr(2) [OF assms] u_dict_of_eq categories_distinct categories_set)

lemma example_run_cells:
  "run_cells example_fit example_ties example_df example_product_ids = Inr example_nb"
  by (simp add: run_cells_def example_nb_def example_df_def build_product_user_matrix_def
      coo_matrix_def codes_def categories_def cat_code_def tocsr_def transpose_T_def
      u_dict_of_def p_dict_of_def get_k_popular_def value_counts_def example_ties_def
      example_product_ids_def N_REC_def Let_def numeral_2_eq_2)

lemma example_parse: "parse_products ''[196, 25133]'' = Inr [196, 25133]"
  by (simp add: parse_products_def strip_def isspace_def py_int_def isdigit_def digit_val_def)

text \<open>
  Claim C4, as amended. Nothing validates the counts: \<open>build_product_user_matrix\<close>
  succeeds on every non-empty frame, whatever the sign of its counts, and fails only on the
  empty frame, with \<open>ValueError\<close>. An evaluation row whose \<open>user_id\<close> is not a key of
  \<open>u_dict\<close> raises \<open>KeyError\<close> in \<open>new_products\<close>, and with it in both predictors
  (nothing catches it); on the state the cells build, a row with a known user succeeds
  whatever product ids its basket holds, known to training or not.
\<close>

theorem no_validation_but_KeyError:
  "(df \<noteq> [] \<longrightarrow> (\<exists>coo. build_product_user_matrix df = Inr coo))
   \<and> build_product_user_matrix [] = Inl ValueError
   \<and> (parse_products (row_products row) = Inr actual \<and> u_dict nb (row_user_id row) = None
        \<longrightarrow> new_products nb row = Inl KeyError
            \<and> popular_recommend nb row = Inl KeyError
            \<and> imf_recommend nb row = Inl KeyError)
   \<and> (run_cells fit ties df col = Inr nb \<and> parse_products (row_products row) = Inr actual
        \<longrightarrow> new_products nb row =
              (if row_user_id row \<in> user_id ` set df
               then Inr (filter (\<lambda>p. p \<notin> product_id ` {r \<in> set df. user_id r = row_user_id row})
                           (remdups actual))
               else Inl KeyError))"
proof -
  have a: "df \<noteq> [] \<longrightarrow> (\<exists>coo. build_product_user_matrix df = Inr coo)"
    using build_entries by blast
  have b: "build_product_user_matrix [] = Inl ValueError"
    by (rule build_empty)
  have c: "new_products nb row = Inl KeyError
            \<and> popular_recommend nb row = Inl KeyError
            \<and> imf_recommend nb row = Inl KeyError"
    if "parse_products (row_products row) = Inr actual" "u_dict nb (row_user_id row) = None"
  proof -
    have "new_products nb row = Inl KeyError"
      using that by (rule new_products_unknown_user)
    then show ?thesis
      by (simp add: popular_recommend_def imf_recommend_def)
  qed
  have d: "new_products nb row =
              (if row_user_id row \<in> user_id ` set df
               then Inr (filter (\<lambda>p. p \<notin> product_id ` {r \<in> set df. user_id r = row_user_id row})
                           (remdups actual))
               else Inl KeyError)"
    if nb: "run_cells fit ties df col = Inr nb"
      and parse: "parse_products (row_products row) = Inr actual"
  proof (cases "row_user_id row \<in> user_id ` set df")
    case True
    with new_products_known_user [OF nb parse] show ?thesis by simp
  next
    case False
    then have "u_dict nb (row_user_id row) = None"
      by (simp add: run_cells_u_dict_None [OF nb])
    with new_products_unknown_user [OF parse] False show ?thesis by simp
  qed
  from a b c d show ?thesis by blast
qed

theorem no_validation_but_KeyError_witness:
  "example_df \<noteq> []
   \<and> (\<exists>coo. build_product_user_matrix example_df = Inr coo)
   \<and> run_cells example_fit example_ties example_df example_product_ids = Inr example_nb
   \<and> parse_products ''[196, 25133]'' = Inr [196, 25133]
   \<and> u_dict example_nb 3 = None
   \<and> new_products example_nb \<lparr>row_user_id = 3, row_products = ''[196, 25133]''\<rparr> = Inl KeyError
   \<and> popular_recommend example_nb \<lparr>row_user_id = 3, row_products = ''[196, 25133]''\<rparr>
       = Inl KeyError
   \<and> imf_recommend example_nb \<lparr>row_user_id = 3, row_products = ''[196, 25133]''\<rparr>
       = Inl KeyError
   \<and> new_products example_nb \<lparr>row_user_id = 1, row_products = ''[196, 25133]''\<rparr>
       = Inr [25133]"
proof -
  let ?row3 = "\<lparr>row_user_id = 3, row_products = ''[196, 25133]''\<rparr>"
  let ?row1 = "\<lparr>row_user_id = 1, row_products = ''[196, 25133]''\<rparr>"
  have ne: "example_df \<noteq> []" by (simp add: example_df_def)
  have none: "u_dict example_nb 3 = None" by (simp add: example_nb_def)
  have p3: "parse_products (row_products ?row3) = Inr [196, 25133]"
    by (simp add: example_parse)
  have p1: "parse_products (row_products ?row1) = Inr [196, 25133]"
    by (simp add: example_parse)
  have n3: "u_dict example_nb (row_user_id ?row3) = None"
    by (simp add: none)
  from no_validation_but_KeyError [of example_df ?row3 "[196, 25133]" example_nb] p3 n3
  have k: "new_products example_nb ?row3 = Inl KeyError
           \<and> popular_recommend example_nb ?row3 = Inl KeyError
           \<and> imf_recommend example_nb ?row3 = Inl KeyError"
    by blast
  have mem: "row_user_id ?row1 \<in> user_id ` set example_df"
    by (simp add: example_df_def)
  have liked: "product_id ` {r \<in> set example_df. user_id r = row_user_id ?row1} = {7, 196}"
    unfolding set_filter [symmetric] by (simp add: example_df_def del: set_filter)
  from no_validation_but_KeyError
    [of example_df ?row1 "[196, 25133]" example_nb example_fit example_ties example_product_ids]
    example_run_cells p1 mem
  have "new_products example_nb ?row1
          = Inr (filter (\<lambda>p. p \<notin> product_id ` {r \<in> set example_df. user_id r = row_user_id ?row1})
                   (remdups [196, 25133]))"
    by simp
  then have s: "new_products example_nb ?row1 = Inr [25133]"
    unfolding liked by simp
  from no_validation_but_KeyError [of example_df ?row3 "[196, 25133]" example_nb] ne
  have b: "\<exists>coo. build_product_user_matrix example_df = Inr coo"
    by blast
  from ne b example_run_cells example_parse none k s show ?thesis by blast
qed

text \<open>
  Claim C4 as the specification states it fails twice: a frame with the negative count
  \<open>-3\<close> is built, and the count is stored; a row of user 3, unknown to training, ends in
  \<open>KeyError\<close>, and a row of user 1 whose basket holds only product 25133, unknown to
  training, ends in no error at all.
\<close>

theorem ValidationError_counterexample:
  "build_product_user_matrix [\<lparr>user_id = 1, product_id = 196, quantity = - 3\<rparr>]
     = Inr \<lparr>shape = (1, 1), entries = [((0, 0), - 3)]\<rparr>
   \<and> getitem (tocsr \<lparr>shape = (1, 1), entries = [((0, 0), - 3 :: 64 word)]\<rparr>) (0, 0) = Inr (- 3)
   \<and> sint (- 3 :: 64 word) = - 3
   \<and> run_cells example_fit example_ties example_df example_product_ids = Inr example_nb
   \<and> new_products example_nb \<lparr>row_user_id = 3, row_products = ''[196]''\<rparr> = Inl KeyError
   \<and> new_products example_nb \<lparr>row_user_id = 1, row_products = ''[25133]''\<rparr> = Inr [25133]"
proof -
  have a: "build_product_user_matrix [\<lparr>user_id = 1, product_id = 196, quantity = - 3\<rparr>]
     = Inr \<lparr>shape = (1, 1), entries = [((0, 0), - 3)]\<rparr>"
    by (simp add: build_product_user_matrix_def coo_matrix_def codes_def categories_def
        cat_code_def)
  have b: "getitem (tocsr \<lparr>shape = (1, 1), entries = [((0, 0), - 3 :: 64 word)]\<rparr>) (0, 0)
             = Inr (- 3)"
    by (simp add: getitem_def tocsr_def)
  have c: "sint (- 3 :: 64 word) = - 3"
    by simp
  have p: "parse_products ''[196]'' = Inr [196]" "parse_products ''[25133]'' = Inr [25133]"
    by (simp_all add: parse_products_def strip_def isspace_def py_int_def isdigit_def
        digit_val_def)
  have d: "new_products example_nb \<lparr>row_user_id = 3, row_products = ''[196]''\<rparr> = Inl KeyError"
    by (simp add: new_products_def p lookup_def example_nb_def)
  have e: "new_products example_nb \<lparr>row_user_id = 1, row_products = ''[25133]''\<rparr> = Inr [25133]"
    by (simp add: new_products_def p lookup_def example_nb_def row_indices_def)
  from a b c example_run_cells d e show ?thesis by blast
qed

section \<open>Popularity baseline\<close>

lemma value_counts_keys:
  assumes "mset (ties (remdups xs)) = mset (remdups xs)"
  shows "mset (map fst (value_counts ties xs)) = mset (remdups xs)"
proof -
  have "mset (map fst (value_counts ties xs))
          = image_mset fst (mset (map (\<lambda>p. (p, count_list xs p)) (ties (remdups xs))))"
    by (simp add: value_counts_def)
  also have "\<dots> = mset (ties (remdups xs))"
    by (simp add: image_mset.compositionality o_def)
  finally show ?thesis using assms by simp
qed

lemma value_counts_distinct:
  assumes "mset (ties (remdups xs)) = mset (remdups xs)"
  shows "distinct (map fst (value_counts ties xs))"
    and "set (map fst (value_counts ties xs)) = set xs"
    and "length (value_counts ties xs) = card (set xs)"
proof -
  note k = value_counts_keys [of ties xs, OF assms]
  show d: "distinct (map fst (value_counts ties xs))"
    using k by (metis distinct_remdups mset_eq_imp_distinct_iff)
  show s: "set (map fst (value_counts ties xs)) = set xs"
    using k by (metis mset_eq_setD set_remdups)
  show "length (value_counts ties xs) = card (set xs)"
    using distinct_card [OF d] s by simp
qed

lemma value_counts_snd:
  "e \<in> set (value_counts ties xs) \<Longrightarrow> snd e = count_list xs (fst e)"
  by (auto simp: value_counts_def)

lemma value_counts_sorted:
  "sorted (map (\<lambda>p. - int (count_list xs p)) (map fst (value_counts ties xs)))"
proof -
  have "sorted (map (\<lambda>(p, c). - int c) (value_counts ties xs))"
    unfolding value_counts_def by (rule sorted_sort_key)
  moreover have "map (\<lambda>(p, c). - int c) (value_counts ties xs)
                   = map (\<lambda>p. - int (count_list xs p)) (map fst (value_counts ties xs))"
    by (auto simp: value_counts_snd case_prod_unfold)
  ultimately show ?thesis by simp
qed

lemma get_k_popular_take:
  "get_k_popular ties k xs = take k (map fst (value_counts ties xs))"
  by (simp add: get_k_popular_def take_map)

lemma sorted_take_drop:
  assumes "sorted (map f l)" and "x \<in> set (take k l)" and "y \<in> set l" and "y \<notin> set (take k l)"
  shows "f x \<le> f y"
proof -
  from assms(3,4) have y: "y \<in> set (drop k l)"
    by (metis Un_iff append_take_drop_id set_append)
  have "sorted (map f (take k l) @ map f (drop k l))"
    using assms(1) by (metis append_take_drop_id map_append)
  then show ?thesis
    using assms(2) y by (auto simp: sorted_append)
qed

lemma sorted_hd_min:
  assumes "sorted (map f l)" and "y \<in> set l"
  shows "f (hd l) \<le> f y"
  using assms by (cases l) auto

text \<open>
  Claim C7. The popularity baseline predicts the same list for every user: the first
  \<open>N\<close> product ids in descending order of their number of occurrences among all prior
  order lines (all of them if there are fewer than \<open>N\<close>), whatever order pandas gives to
  products that occur equally often. No product outside the list occurs more often than
  one inside, and a product that occurs more often than every other comes first.
\<close>

theorem popular_baseline:
  assumes "mset (ties (remdups col)) = mset (remdups col)"
  shows "distinct (get_k_popular ties k col)
   \<and> set (get_k_popular ties k col) \<subseteq> set col
   \<and> length (get_k_popular ties k col) = min k (card (set col))
   \<and> sorted_wrt (\<lambda>p q. count_list col q \<le> count_list col p) (get_k_popular ties k col)
   \<and> (\<forall>p \<in> set (get_k_popular ties k col). \<forall>q \<in> set col - set (get_k_popular ties k col).
         count_list col q \<le> count_list col p)
   \<and> (0 < k \<and> p \<in> set col \<and> (\<forall>q \<in> set col. q \<noteq> p \<longrightarrow> count_list col q < count_list col p)
        \<longrightarrow> get_k_popular ties k col \<noteq> [] \<and> hd (get_k_popular ties k col) = p)
   \<and> (run_cells fit ties df col = Inr nb
        \<longrightarrow> popular_products nb = get_k_popular ties N_REC col
            \<and> (\<forall>row. popular_recommend nb row =
                  (case new_products nb row of
                     Inl e \<Rightarrow> Inl e
                   | Inr actual \<Rightarrow> Inr (recall_score actual (get_k_popular ties N_REC col)))))"
proof -
  let ?keys = "map fst (value_counts ties col)"
  let ?top = "get_k_popular ties k col"
  let ?f = "\<lambda>p. - int (count_list col p)"
  note vc = value_counts_distinct [of ties col, OF assms]
  have top: "?top = take k ?keys" by (rule get_k_popular_take)
  have srt: "sorted (map ?f ?keys)" by (rule value_counts_sorted)
  have a: "distinct ?top"
    using vc(1) by (simp add: top)
  have b: "set ?top \<subseteq> set col"
    using vc(2) set_take_subset [of k ?keys] by (simp add: top)
  have c: "length ?top = min k (card (set col))"
    using vc(3) by (simp add: top min.commute)
  have d: "sorted_wrt (\<lambda>p q. count_list col q \<le> count_list col p) ?top"
  proof -
    have "sorted (map ?f (take k ?keys))"
      using srt by (metis sorted_wrt_take take_map)
    then show ?thesis
      by (simp add: top sorted_map)
  qed
  have e: "\<forall>p \<in> set ?top. \<forall>q \<in> set col - set ?top. count_list col q \<le> count_list col p"
  proof (intro ballI)
    fix p q assume p: "p \<in> set ?top" and q: "q \<in> set col - set ?top"
    from q have "q \<in> set ?keys" "q \<notin> set (take k ?keys)"
      using vc(2) by (simp_all add: top)
    with sorted_take_drop [OF srt, of p k q] p have "?f p \<le> ?f q"
      by (simp add: top)
    then show "count_list col q \<le> count_list col p" by simp
  qed
  have f: "?top \<noteq> [] \<and> hd ?top = p"
    if k: "0 < k" and p: "p \<in> set col"
      and most: "\<forall>q \<in> set col. q \<noteq> p \<longrightarrow> count_list col q < count_list col p"
  proof -
    from p vc(2) have pk: "p \<in> set ?keys" by simp
    then have ne: "?keys \<noteq> []" by auto
    then have "hd ?keys \<in> set col"
      using vc(2) hd_in_set by blast
    moreover have "?f (hd ?keys) \<le> ?f p"
      by (rule sorted_hd_min [OF srt pk])
    ultimately have "hd ?keys = p"
      using most by fastforce
    moreover from k ne have "?top \<noteq> []" "hd ?top = hd ?keys"
      by (simp_all add: top)
    ultimately show ?thesis by simp
  qed
  have g: "popular_products nb = get_k_popular ties N_REC col
            \<and> (\<forall>row. popular_recommend nb row =
                  (case new_products nb row of
                     Inl e \<Rightarrow> Inl e
                   | Inr actual \<Rightarrow> Inr (recall_score actual (get_k_popular ties N_REC col))))"
    if "run_cells fit ties df col = Inr nb"
    using run_cells_Inr(4) [OF that] by (simp add: popular_recommend_def split: sum.splits)
  from a b c d e f g show ?thesis by blast
qed

theorem popular_baseline_witness:
  "mset (example_ties (remdups example_product_ids)) = mset (remdups example_product_ids)
   \<and> 0 < N_REC
   \<and> 196 \<in> set example_product_ids
   \<and> set example_product_ids = {196, 7}
   \<and> count_list example_product_ids 7 < count_list example_product_ids 196
   \<and> run_cells example_fit example_ties example_df example_product_ids = Inr example_nb
   \<and> get_k_popular example_ties N_REC example_product_ids = [196, 7]
   \<and> hd (get_k_popular example_ties N_REC example_product_ids) = 196
   \<and> popular_recommend example_nb \<lparr>row_user_id = 1, row_products = ''[196, 25133]''\<rparr>
       = Inr (recall_score [25133 :: int] [196, 7])
   \<and> popular_recommend example_nb \<lparr>row_user_id = 2, row_products = ''[7, 8]''\<rparr>
       = Inr (recall_score [7, 8 :: int] [196, 7])"
proof -
  let ?row1 = "\<lparr>row_user_id = 1, row_products = ''[196, 25133]''\<rparr>"
  let ?row2 = "\<lparr>row_user_id = 2, row_products = ''[7, 8]''\<rparr>"
  have h: "mset (example_ties (remdups example_product_ids)) = mset (remdups example_product_ids)"
    by (simp add: example_ties_def)
  have m: "196 \<in> set example_product_ids"
    by (simp add: example_product_ids_def)
  have s: "set example_product_ids = {196, 7}"
    by (auto simp: example_product_ids_def)
  have lt: "count_list example_product_ids 7 < count_list example_product_ids 196"
    by (simp add: example_product_ids_def)
  then have most: "\<forall>q \<in> set example_product_ids.
      q \<noteq> 196 \<longrightarrow> count_list example_product_ids q < count_list example_product_ids 196"
    by (simp add: s)
  have pos: "0 < N_REC" by (simp add: N_REC_def)
  have v: "get_k_popular example_ties N_REC example_product_ids = [196, 7]"
    by (simp add: get_k_popular_def value_counts_def example_ties_def example_product_ids_def
        N_REC_def)
  note t = popular_baseline [where ties = example_ties and col = example_product_ids
      and k = N_REC and p = 196 and fit = example_fit and df = example_df and nb = example_nb,
      OF h]
  from t pos m most have hd: "hd (get_k_popular example_ties N_REC example_product_ids) = 196"
    by blast
  from t example_run_cells
  have r: "popular_recommend example_nb row =
             (case new_products example_nb row of
                Inl e \<Rightarrow> Inl e
              | Inr actual \<Rightarrow>
                  Inr (recall_score actual (get_k_popular example_ties N_REC example_product_ids)))"
    for row
    by blast
  have p: "parse_products ''[196, 25133]'' = Inr [196, 25133]"
    "parse_products ''[7, 8]'' = Inr [7, 8]"
    by (simp_all add: parse_products_def strip_def isspace_def py_int_def isdigit_def
        digit_val_def)
  have n1: "new_products example_nb ?row1 = Inr [25133]"
    by (simp add: new_products_def p lookup_def example_nb_def row_indices_def)
  have n2: "new_products example_nb ?row2 = Inr [7, 8]"
    by (simp add: new_products_def p lookup_def example_nb_def row_indices_def)
  have r1: "popular_recommend example_nb ?row1 = Inr (recall_score [25133 :: int] [196, 7])"
    by (simp add: r n1 v)
  have r2: "popular_recommend example_nb ?row2 = Inr (recall_score [7, 8 :: int] [196, 7])"
    by (simp add: r n2 v)
  from h pos m s lt example_run_cells v hd r1 r2 show ?thesis by blast
qed

section \<open>Recommendation Generator\<close>

lemma top_of_ranked:
  assumes "map fst scored = cand" and "distinct cand"
  shows "distinct (map fst (take N (sort_key f scored)))"
    and "set (map fst (take N (sort_key f scored))) \<subseteq> set cand"
    and "length (take N (sort_key f scored)) = min N (length cand)"
proof -
  have "mset (map fst (sort_key f scored)) = image_mset fst (mset (sort_key f scored))"
    by (simp only: mset_map)
  also have "\<dots> = image_mset fst (mset scored)"
    by (simp only: mset_sort)
  also have "\<dots> = mset (map fst scored)"
    by (simp only: mset_map)
  finally have m: "mset (map fst (sort_key f scored)) = mset cand"
    by (simp only: assms(1))
  have "distinct (map fst (sort_key f scored))"
    using mset_eq_imp_distinct_iff [OF m] assms(2) by simp
  then show "distinct (map fst (take N (sort_key f scored)))"
    by (metis distinct_take take_map)
  have "set (map fst (sort_key f scored)) = set cand"
    using m by (rule mset_eq_setD)
  moreover have "set (map fst (take N (sort_key f scored))) \<subseteq> set (map fst (sort_key f scored))"
    by (metis set_take_subset take_map)
  ultimately show "set (map fst (take N (sort_key f scored))) \<subseteq> set cand"
    by simp
  have "length scored = length cand"
    using assms(1) by (metis length_map)
  then show "length (take N (sort_key f scored)) = min N (length cand)"
    by (simp add: min.commute)
qed

lemma recommend_items:
  assumes "user_index < length X"
  shows "\<exists>recs. recommend user_index X Y N exclude = Inr recs
     \<and> distinct (map fst recs)
     \<and> set (map fst recs)
          \<subseteq> set (filter (\<lambda>i. case exclude of None \<Rightarrow> True | Some ex \<Rightarrow> i \<notin> ex) [0..<length Y])
     \<and> length recs
          = min N (length (filter (\<lambda>i. case exclude of None \<Rightarrow> True | Some ex \<Rightarrow> i \<notin> ex)
                             [0..<length Y]))"
proof -
  let ?cand = "filter (\<lambda>i. case exclude of None \<Rightarrow> True | Some ex \<Rightarrow> i \<notin> ex) [0..<length Y]"
  let ?scored = "map (\<lambda>i. (i, dot (X ! user_index) (Y ! i))) ?cand"
  let ?ranked = "sort_key (\<lambda>(i, s). (- s, i)) ?scored"
  have r: "recommend user_index X Y N exclude = Inr (take N ?ranked)"
    using assms by (simp add: recommend_def Let_def)
  have sc: "map fst ?scored = ?cand"
    by (simp add: o_def)
  have dc: "distinct ?cand" by simp
  note t = top_of_ranked [OF sc dc, of N "\<lambda>(i, s). (- s, i)"]
  from r t show ?thesis by blast
qed

text \<open>
  Claim C6. For every user with a row in \<open>X\<close>, \<open>recommend\<close> with \<open>exclude\<close> set to
  the user's purchase history returns a list of items none of which is in the history
  (and none twice); it returns exactly \<open>N\<close> items whenever at least \<open>N\<close> items are not
  excluded, and never more than \<open>N\<close>.
\<close>

theorem recommend_excludes_history:
  assumes "user_index < length X"
  shows "\<exists>recs. recommend user_index X Y N (Some history) = Inr recs
     \<and> fst ` set recs \<inter> history = {}
     \<and> distinct (map fst recs)
     \<and> length recs \<le> N
     \<and> (N \<le> card ({0..<length Y} - history) \<longrightarrow> length recs = N)"
proof -
  let ?cand = "filter (\<lambda>i. i \<notin> history) [0..<length Y]"
  from recommend_items [OF assms, of Y N "Some history"]
  obtain recs where r: "recommend user_index X Y N (Some history) = Inr recs"
    and b: "distinct (map fst recs)"
    and sub: "set (map fst recs) \<subseteq> set ?cand"
    and len: "length recs = min N (length ?cand)"
    by auto
  have dc: "distinct ?cand" by simp
  have sc: "set ?cand = {0..<length Y} - history" by auto
  have a: "fst ` set recs \<inter> history = {}"
    using sub sc by auto
  have "length ?cand = card ({0..<length Y} - history)"
    using distinct_card [OF dc] sc by simp
  then have c: "N \<le> card ({0..<length Y} - history) \<longrightarrow> length recs = N"
    using len by simp
  from r a b c len show ?thesis by simp
qed

theorem recommend_excludes_history_witness:
  "(0 :: nat) < length [[1 :: rat, 2]]
   \<and> (2 :: nat) \<le> card ({0..<length [[3 :: rat, 0], [0, 1], [1, 1], [2, 2]]} - {1})
   \<and> recommend 0 [[1, 2]] [[3, 0], [0, 1], [1, 1], [2, 2]] 2 (Some {1}) = Inr [(3, 6), (0, 3)]
   \<and> fst ` set [(3 :: nat, 6 :: rat), (0, 3)] \<inter> {1} = {}
   \<and> length [(3 :: nat, 6 :: rat), (0, 3)] = 2"
proof -
  let ?X = "[[1 :: rat, 2]]"
  let ?Y = "[[3 :: rat, 0], [0, 1], [1, 1], [2, 2]]"
  have h: "(0 :: nat) < length ?X" by simp
  have n: "(2 :: nat) \<le> card ({0..<length ?Y} - {1})"
  proof -
    have "{0..<length ?Y} - {1} = {0, 2, 3}" by auto
    then show ?thesis by simp
  qed
  have v: "recommend 0 ?X ?Y 2 (Some {1}) = Inr [(3, 6), (0, 3)]"
    by code_simp
  from recommend_excludes_history [OF h, of ?Y 2 "{1}"] n v
  have "fst ` set [(3 :: nat, 6 :: rat), (0, 3)] \<inter> {1} = {}
        \<and> length [(3 :: nat, 6 :: rat), (0, 3)] = 2"
    by simp
  with h n v show ?thesis by blast
qed

end
